theory Spec2Isabelle
  imports Complex_Main "HOL-Library.Multiset"
begin

section \<open>Brain-games: embedding of the game logic\<close>

text \<open>
  Each game is a React component whose state lives in \<^verbatim>\<open>useState\<close> cells and whose
  handlers and timer callbacks update those cells.  A component is embedded as a record
  of its cells, each handler or timer callback as a function from the record to the
  updated record, and a session as a list of events folded over the initial record.
  A timer callback is only pending while the condition of the effect that installs it
  holds, so each callback is guarded by that condition.  The Go/No-Go session also
  keeps the cells of the last render, which are the ones its callbacks read.

  JavaScript numbers are embedded as \<^typ>\<open>int\<close> where the code only ever holds integers
  (counters, millisecond durations) and as \<^typ>\<open>real\<close> where it divides or draws
  \<^verbatim>\<open>Math.random()\<close>; the rounding of IEEE doubles is not part of the embedding.
\<close>

subsection \<open>Shared JavaScript idioms\<close>

text \<open>
  A value returned by \<^verbatim>\<open>Math.random()\<close>: a number in the half-open interval from 0
  (inclusive) to 1 (exclusive).  Functions that draw random numbers take their draws as
  arguments.
\<close>

typedef random_draw = "{r :: real. 0 \<le> r \<and> r < 1}"
  morphisms draw_value Draw
  by (rule exI [of _ 0]) simp

text \<open>\<^verbatim>\<open>xs[i]\<close>: \<^verbatim>\<open>undefined\<close> (here \<open>None\<close>) outside the array.\<close>

definition js_index :: "'a list \<Rightarrow> nat \<Rightarrow> 'a option" where
  "js_index xs i = (if i < length xs then Some (xs ! i) else None)"

text \<open>
  \<^verbatim>\<open>a / b\<close> where the code does not guard the divisor: \<open>None\<close> stands for a quotient
  that is not a finite number (\<^verbatim>\<open>NaN\<close> for 0/0, an infinity otherwise).
\<close>

definition js_div :: "real \<Rightarrow> real \<Rightarrow> real option" where
  "js_div a b = (if b = 0 then None else Some (a / b))"

text \<open>
  What a handler or timer callback leaves behind: it returns, or it throws a
  \<^verbatim>\<open>TypeError\<close> on reading a property of \<^verbatim>\<open>undefined\<close>.  Either way the state
  carried is the one holding the updates queued before the return or the throw.
\<close>

datatype 's outcome = Returned 's | TypeError 's

fun state_of :: "'s outcome \<Rightarrow> 's" where
  "state_of (Returned s) = s"
| "state_of (TypeError s) = s"

text \<open>
  The Fisher-Yates shuffle shared by the trial generators:
  \<^verbatim>\<open>for (let i = trials.length - 1; i > 0; i--) {
    const j = Math.floor(Math.random() * (i + 1));
    [trials[i], trials[j]] = [trials[j], trials[i]]; }\<close>
  \<open>rnd k\<close> is the \<open>k\<close>-th draw of the generator that runs the loop.
\<close>

fun shuffle_loop :: "(nat \<Rightarrow> random_draw) \<Rightarrow> nat \<Rightarrow> nat \<Rightarrow> 'a list \<Rightarrow> 'a list" where
  "shuffle_loop rnd k 0 xs = xs"
| "shuffle_loop rnd k (Suc i') xs =
     (let i = Suc i';
          j = nat \<lfloor>draw_value (rnd k) * real (i + 1)\<rfloor>
      in shuffle_loop rnd (k + 1) i' (xs[i := xs ! j, j := xs ! i]))"

definition shuffle :: "(nat \<Rightarrow> random_draw) \<Rightarrow> nat \<Rightarrow> 'a list \<Rightarrow> 'a list" where
  "shuffle rnd k xs = shuffle_loop rnd k (length xs - 1) xs"

text \<open>The phases of the Go/No-Go, Stroop, Flanker and Task Switching components, and
  the feedback shown after a trial.\<close>

datatype game_phase = Instructions | Countdown | Playing | Feedback | Results

datatype feedback = Correct | Incorrect

subsection \<open>Useful Field of View (component UFOV, games/processing-speed/UFOV.tsx)\<close>

datatype ufov_phase =
  U_instructions | U_countdown | U_fixation | U_stimulus | U_mask | U_response
  | U_feedback | U_results

datatype center_shape = Car | Truck

record ufov_trial =
  centerShape :: center_shape
  peripheralPosition :: int
  trial_displayTime :: int

record ufov_result =
  ur_trial :: ufov_trial
  ur_centerResponse :: center_shape
  ur_peripheralResponse :: int
  centerCorrect :: bool
  peripheralCorrect :: bool

record ufov_state =
  u_phase :: ufov_phase
  u_countdown :: int
  u_currentTrial :: int
  u_trial :: "ufov_trial option"
  u_results :: "ufov_result list"
  u_centerResponse :: "center_shape option"
  u_peripheralResponse :: "int option"
  u_feedback :: "(bool \<times> bool) option"
  displayTime :: int

definition UFOV_TOTAL_TRIALS :: int where "UFOV_TOTAL_TRIALS = 16"
definition POSITIONS :: int where "POSITIONS = 8"
definition INITIAL_DISPLAY_TIME :: int where "INITIAL_DISPLAY_TIME = 500"

text \<open>The cells as \<^verbatim>\<open>useState\<close> initialises them.\<close>

definition ufov_initial :: ufov_state where
  "ufov_initial =
     \<lparr>u_phase = U_instructions, u_countdown = 3, u_currentTrial = 0, u_trial = None,
      u_results = [], u_centerResponse = None, u_peripheralResponse = None,
      u_feedback = None, displayTime = INITIAL_DISPLAY_TIME\<rparr>"

text \<open>\<^verbatim>\<open>generateTrial\<close>; \<open>r1\<close> and \<open>r2\<close> are its two draws of \<^verbatim>\<open>Math.random()\<close>.\<close>

definition ufov_generateTrial :: "random_draw \<Rightarrow> random_draw \<Rightarrow> ufov_state \<Rightarrow> ufov_trial" where
  "ufov_generateTrial r1 r2 s =
     \<lparr>centerShape = (if draw_value r1 > 0.5 then Car else Truck),
      peripheralPosition = \<lfloor>draw_value r2 * real_of_int POSITIONS\<rfloor>,
      trial_displayTime = displayTime s\<rparr>"

definition ufov_startGame :: "ufov_state \<Rightarrow> ufov_state" where
  "ufov_startGame s =
     s\<lparr>u_phase := U_countdown, u_countdown := 3, displayTime := INITIAL_DISPLAY_TIME\<rparr>"

text \<open>The countdown effect: a one-second timer while the count is positive, the switch
  to the first fixation when it is zero.\<close>

definition ufov_countdownEffect :: "ufov_state \<Rightarrow> ufov_state" where
  "ufov_countdownEffect s =
     (if u_phase s = U_countdown \<and> u_countdown s > 0 then s\<lparr>u_countdown := u_countdown s - 1\<rparr>
      else if u_phase s = U_countdown \<and> u_countdown s = 0
      then s\<lparr>u_currentTrial := 0, u_results := [], u_phase := U_fixation\<rparr>
      else s)"

definition ufov_fixationEffect :: "random_draw \<Rightarrow> random_draw \<Rightarrow> ufov_state \<Rightarrow> ufov_state" where
  "ufov_fixationEffect r1 r2 s =
     (if u_phase s = U_fixation then s\<lparr>u_trial := Some (ufov_generateTrial r1 r2 s)\<rparr> else s)"

definition ufov_fixationTimer :: "ufov_state \<Rightarrow> ufov_state" where
  "ufov_fixationTimer s = (if u_phase s = U_fixation then s\<lparr>u_phase := U_stimulus\<rparr> else s)"

definition ufov_stimulusTimer :: "ufov_state \<Rightarrow> ufov_state" where
  "ufov_stimulusTimer s =
     (if u_phase s = U_stimulus \<and> u_trial s \<noteq> None then s\<lparr>u_phase := U_mask\<rparr> else s)"

definition ufov_maskTimer :: "ufov_state \<Rightarrow> ufov_state" where
  "ufov_maskTimer s =
     (if u_phase s = U_mask
      then s\<lparr>u_centerResponse := None, u_peripheralResponse := None, u_phase := U_response\<rparr>
      else s)"

definition handleCenterResponse :: "center_shape \<Rightarrow> ufov_state \<Rightarrow> ufov_state" where
  "handleCenterResponse response s = s\<lparr>u_centerResponse := Some response\<rparr>"

definition handlePeripheralResponse :: "int \<Rightarrow> ufov_state \<Rightarrow> ufov_state" where
  "handlePeripheralResponse position s = s\<lparr>u_peripheralResponse := Some position\<rparr>"

definition handleSubmitResponse :: "ufov_state \<Rightarrow> ufov_state" where
  "handleSubmitResponse s =
     (case (u_centerResponse s, u_peripheralResponse s, u_trial s) of
        (Some c, Some p, Some t) \<Rightarrow>
          (let cCorrect = (c = centerShape t);
               pCorrect = (p = peripheralPosition t);
               result = \<lparr>ur_trial = t, ur_centerResponse = c, ur_peripheralResponse = p,
                         centerCorrect = cCorrect, peripheralCorrect = pCorrect\<rparr>
           in s\<lparr>u_results := u_results s @ [result],
                u_feedback := Some (cCorrect, pCorrect),
                displayTime := (if cCorrect \<and> pCorrect then max (displayTime s - 50) 50
                                else min (displayTime s + 50) 500),
                u_phase := U_feedback\<rparr>)
      | _ \<Rightarrow> s)"

definition ufov_feedbackTimer :: "ufov_state \<Rightarrow> ufov_state" where
  "ufov_feedbackTimer s =
     (if u_phase s = U_feedback
      then (if u_currentTrial s + 1 \<ge> UFOV_TOTAL_TRIALS
            then s\<lparr>u_feedback := None, u_phase := U_results\<rparr>
            else s\<lparr>u_feedback := None, u_currentTrial := u_currentTrial s + 1,
                   u_phase := U_fixation\<rparr>)
      else s)"

datatype ufov_event =
  U_StartGame | U_CountdownEffect | U_FixationEffect random_draw random_draw | U_FixationTimer
  | U_StimulusTimer | U_MaskTimer | U_Center center_shape | U_Peripheral int
  | U_Submit | U_FeedbackTimer

fun ufov_step :: "ufov_state \<Rightarrow> ufov_event \<Rightarrow> ufov_state" where
  "ufov_step s U_StartGame = ufov_startGame s"
| "ufov_step s U_CountdownEffect = ufov_countdownEffect s"
| "ufov_step s (U_FixationEffect r1 r2) = ufov_fixationEffect r1 r2 s"
| "ufov_step s U_FixationTimer = ufov_fixationTimer s"
| "ufov_step s U_StimulusTimer = ufov_stimulusTimer s"
| "ufov_step s U_MaskTimer = ufov_maskTimer s"
| "ufov_step s (U_Center c) = handleCenterResponse c s"
| "ufov_step s (U_Peripheral p) = handlePeripheralResponse p s"
| "ufov_step s U_Submit = handleSubmitResponse s"
| "ufov_step s U_FeedbackTimer = ufov_feedbackTimer s"

definition ufov_run :: "ufov_state \<Rightarrow> ufov_event list \<Rightarrow> ufov_state" where
  "ufov_run = foldl ufov_step"

subsection \<open>Go/No-Go (component GoNoGo, games/attention-inhibition/GoNoGo.tsx)\<close>

datatype trial_type = Go | Nogo

datatype gng_shape = Circle | Square

record gng_trial =
  g_type :: trial_type
  g_shape :: gng_shape

text \<open>\<open>gr_responseTime\<close> is \<^verbatim>\<open>number | null\<close>: \<open>None\<close> is \<^verbatim>\<open>null\<close>.\<close>

record gng_result =
  gr_trial :: gng_trial
  gr_responded :: bool
  gr_correct :: bool
  gr_responseTime :: "int option"

record gng_state =
  g_phase :: game_phase
  g_countdown :: int
  g_trials :: "gng_trial list"
  g_currentTrial :: nat
  g_trialStart :: int
  g_results :: "gng_result list"
  g_feedback :: "feedback option"
  g_showFixation :: bool
  g_showStimulus :: bool
  g_responded :: bool

definition TOTAL_TRIALS :: nat where "TOTAL_TRIALS = 30"
definition GO_RATIO :: real where "GO_RATIO = 0.7"

definition gng_initial :: gng_state where
  "gng_initial =
     \<lparr>g_phase = Instructions, g_countdown = 3, g_trials = [], g_currentTrial = 0,
      g_trialStart = 0, g_results = [], g_feedback = None, g_showFixation = False,
      g_showStimulus = False, g_responded = False\<rparr>"

text \<open>\<^verbatim>\<open>generateTrials\<close>: the go trials, then the no-go trials, then the shuffle.\<close>

definition generateTrials :: "(nat \<Rightarrow> random_draw) \<Rightarrow> gng_trial list" where
  "generateTrials rnd =
     (let goCount = nat \<lfloor>real TOTAL_TRIALS * GO_RATIO\<rfloor>;
          nogoCount = TOTAL_TRIALS - goCount;
          trials = replicate goCount \<lparr>g_type = Go, g_shape = Circle\<rparr>
                   @ replicate nogoCount \<lparr>g_type = Nogo, g_shape = Square\<rparr>
      in shuffle rnd 0 trials)"

definition gng_startGame :: "(nat \<Rightarrow> random_draw) \<Rightarrow> gng_state \<Rightarrow> gng_state" where
  "gng_startGame rnd s =
     s\<lparr>g_trials := generateTrials rnd, g_phase := Countdown, g_countdown := 3\<rparr>"

definition gng_countdownEffect :: "gng_state \<Rightarrow> gng_state" where
  "gng_countdownEffect s =
     (if g_phase s = Countdown \<and> g_countdown s > 0 then s\<lparr>g_countdown := g_countdown s - 1\<rparr>
      else if g_phase s = Countdown \<and> g_countdown s = 0
      then s\<lparr>g_phase := Playing, g_currentTrial := 0, g_results := [],
             g_showFixation := True, g_responded := False\<rparr>
      else s)"

text \<open>The fixation timer fires at time \<open>now\<close> (what \<^verbatim>\<open>Date.now()\<close> returns then).\<close>

definition gng_fixationTimer :: "int \<Rightarrow> gng_state \<Rightarrow> gng_state" where
  "gng_fixationTimer now s =
     (if g_phase s = Playing \<and> g_showFixation s
      then s\<lparr>g_showFixation := False, g_showStimulus := True, g_trialStart := now,
             g_responded := False\<rparr>
      else s)"

text \<open>The stimulus timer: no response within \<^verbatim>\<open>STIMULUS_DURATION\<close>.\<close>

definition gng_stimulusTimeout :: "gng_state \<Rightarrow> gng_state outcome" where
  "gng_stimulusTimeout s =
     (if g_phase s = Playing \<and> g_showStimulus s \<and> \<not> g_responded s
      then (case js_index (g_trials s) (g_currentTrial s) of
              None \<Rightarrow> TypeError s
            | Some trial \<Rightarrow>
                (let correct = (g_type trial = Nogo);
                     result = \<lparr>gr_trial = trial, gr_responded = False, gr_correct = correct,
                               gr_responseTime = None\<rparr>
                 in Returned (s\<lparr>g_results := g_results s @ [result],
                                 g_feedback := Some (if correct then Correct else Incorrect),
                                 g_showStimulus := False,
                                 g_phase := Feedback\<rparr>)))
      else Returned s)"

definition gng_handleResponse :: "int \<Rightarrow> gng_state \<Rightarrow> gng_state outcome" where
  "gng_handleResponse now s =
     (if g_phase s \<noteq> Playing \<or> \<not> g_showStimulus s \<or> g_responded s then Returned s
      else (let responseTime = now - g_trialStart s
            in case js_index (g_trials s) (g_currentTrial s) of
                 None \<Rightarrow> TypeError (s\<lparr>g_responded := True\<rparr>)
               | Some trial \<Rightarrow>
                   (let correct = (g_type trial = Go);
                        result = \<lparr>gr_trial = trial, gr_responded = True, gr_correct = correct,
                                  gr_responseTime = Some responseTime\<rparr>
                    in Returned (s\<lparr>g_responded := True,
                                    g_results := g_results s @ [result],
                                    g_feedback := Some (if correct then Correct else Incorrect),
                                    g_showStimulus := False,
                                    g_phase := Feedback\<rparr>))))"

definition gng_feedbackTimer :: "gng_state \<Rightarrow> gng_state" where
  "gng_feedbackTimer s =
     (if g_phase s = Feedback
      then (if g_currentTrial s + 1 \<ge> TOTAL_TRIALS
            then s\<lparr>g_feedback := None, g_phase := Results\<rparr>
            else s\<lparr>g_feedback := None, g_currentTrial := g_currentTrial s + 1,
                   g_showFixation := True, g_phase := Playing\<rparr>)
      else s)"

text \<open>
  The functions above are each callback run right after the render that created it.
  React runs a handler or timer callback on the cells of the render that created it
  and only queues its updates; the cells a callback reads change at the next render.
  Between two renders a second callback of the same render can therefore still run
  although the first has queued updates that would close its guard: the stimulus timer
  records a timeout, and a key press that arrives before the re-render passes the guard
  of \<^verbatim>\<open>handleResponse\<close> and appends a second record for the same trial.

  The functions below are the same callbacks with the cells they read (\<open>r\<close>, those of
  the render) kept apart from the cells they update (\<open>c\<close>, those holding the updates
  queued so far).  An update by value (\<^verbatim>\<open>setPhase('feedback')\<close>) overwrites the cell;
  a functional update (\<^verbatim>\<open>setResults(prev => [...prev, result])\<close>,
  \<^verbatim>\<open>setCurrentTrial(prev => prev + 1)\<close>) is applied to the queued value.
\<close>

definition gng_countdownEffect_closure :: "gng_state \<Rightarrow> gng_state \<Rightarrow> gng_state" where
  "gng_countdownEffect_closure r c =
     (if g_phase r = Countdown \<and> g_countdown r > 0 then c\<lparr>g_countdown := g_countdown r - 1\<rparr>
      else if g_phase r = Countdown \<and> g_countdown r = 0
      then c\<lparr>g_phase := Playing, g_currentTrial := 0, g_results := [],
             g_showFixation := True, g_responded := False\<rparr>
      else c)"

definition gng_fixationTimer_closure :: "gng_state \<Rightarrow> int \<Rightarrow> gng_state \<Rightarrow> gng_state" where
  "gng_fixationTimer_closure r now c =
     (if g_phase r = Playing \<and> g_showFixation r
      then c\<lparr>g_showFixation := False, g_showStimulus := True, g_trialStart := now,
             g_responded := False\<rparr>
      else c)"

definition gng_stimulusTimeout_closure :: "gng_state \<Rightarrow> gng_state \<Rightarrow> gng_state outcome" where
  "gng_stimulusTimeout_closure r c =
     (if g_phase r = Playing \<and> g_showStimulus r \<and> \<not> g_responded r
      then (case js_index (g_trials r) (g_currentTrial r) of
              None \<Rightarrow> TypeError c
            | Some trial \<Rightarrow>
                (let correct = (g_type trial = Nogo);
                     result = \<lparr>gr_trial = trial, gr_responded = False, gr_correct = correct,
                               gr_responseTime = None\<rparr>
                 in Returned (c\<lparr>g_results := g_results c @ [result],
                                 g_feedback := Some (if correct then Correct else Incorrect),
                                 g_showStimulus := False,
                                 g_phase := Feedback\<rparr>)))
      else Returned c)"

definition gng_handleResponse_closure ::
  "gng_state \<Rightarrow> int \<Rightarrow> gng_state \<Rightarrow> gng_state outcome" where
  "gng_handleResponse_closure r now c =
     (if g_phase r \<noteq> Playing \<or> \<not> g_showStimulus r \<or> g_responded r then Returned c
      else (let responseTime = now - g_trialStart r
            in case js_index (g_trials r) (g_currentTrial r) of
                 None \<Rightarrow> TypeError (c\<lparr>g_responded := True\<rparr>)
               | Some trial \<Rightarrow>
                   (let correct = (g_type trial = Go);
                        result = \<lparr>gr_trial = trial, gr_responded = True, gr_correct = correct,
                                  gr_responseTime = Some responseTime\<rparr>
                    in Returned (c\<lparr>g_responded := True,
                                    g_results := g_results c @ [result],
                                    g_feedback := Some (if correct then Correct else Incorrect),
                                    g_showStimulus := False,
                                    g_phase := Feedback\<rparr>))))"

definition gng_feedbackTimer_closure :: "gng_state \<Rightarrow> gng_state \<Rightarrow> gng_state" where
  "gng_feedbackTimer_closure r c =
     (if g_phase r = Feedback
      then (if g_currentTrial r + 1 \<ge> TOTAL_TRIALS
            then c\<lparr>g_feedback := None, g_phase := Results\<rparr>
            else c\<lparr>g_feedback := None, g_currentTrial := g_currentTrial c + 1,
                   g_showFixation := True, g_phase := Playing\<rparr>)
      else c)"

text \<open>
  A session keeps both: \<open>g_rendered\<close>, the cells of the last render, which every
  callback reads, and \<open>g_cells\<close>, the cells with the updates queued since.  An event is
  the run of one callback, or a render, which makes the queued cells the rendered ones.
  \<^verbatim>\<open>startGame\<close> reads no cell.  A callback of a render may run here any number of
  times before the next render; the timers of the code run at most once, so the
  sessions of the code are among these.
\<close>

record gng_session =
  g_rendered :: gng_state
  g_cells :: gng_state

definition gng_session_initial :: gng_session where
  "gng_session_initial = \<lparr>g_rendered = gng_initial, g_cells = gng_initial\<rparr>"

datatype gng_event =
  G_StartGame "nat \<Rightarrow> random_draw" | G_CountdownEffect | G_FixationTimer int
  | G_StimulusTimeout | G_Response int | G_FeedbackTimer | G_Render

fun gng_step :: "gng_session \<Rightarrow> gng_event \<Rightarrow> gng_session" where
  "gng_step S (G_StartGame rnd) = S\<lparr>g_cells := gng_startGame rnd (g_cells S)\<rparr>"
| "gng_step S G_CountdownEffect =
     S\<lparr>g_cells := gng_countdownEffect_closure (g_rendered S) (g_cells S)\<rparr>"
| "gng_step S (G_FixationTimer now) =
     S\<lparr>g_cells := gng_fixationTimer_closure (g_rendered S) now (g_cells S)\<rparr>"
| "gng_step S G_StimulusTimeout =
     S\<lparr>g_cells := state_of (gng_stimulusTimeout_closure (g_rendered S) (g_cells S))\<rparr>"
| "gng_step S (G_Response now) =
     S\<lparr>g_cells := state_of (gng_handleResponse_closure (g_rendered S) now (g_cells S))\<rparr>"
| "gng_step S G_FeedbackTimer =
     S\<lparr>g_cells := gng_feedbackTimer_closure (g_rendered S) (g_cells S)\<rparr>"
| "gng_step S G_Render = S\<lparr>g_rendered := g_cells S\<rparr>"

definition gng_run :: "gng_session \<Rightarrow> gng_event list \<Rightarrow> gng_session" where
  "gng_run = foldl gng_step"

record gng_stats =
  hitRate :: real
  correctRejectionRate :: real
  falseAlarmRate :: real
  avgGoRT :: real
  overallAccuracy :: "real option"

definition gng_calculateStats :: "gng_result list \<Rightarrow> gng_stats" where
  "gng_calculateStats results =
     (let goTrials = filter (\<lambda>r. g_type (gr_trial r) = Go) results;
          nogoTrials = filter (\<lambda>r. g_type (gr_trial r) = Nogo) results;
          goCorrect = filter gr_correct goTrials;
          nogoCorrect = filter gr_correct nogoTrials;
          goResponseTimes = List.map_filter gr_responseTime goCorrect
      in \<lparr>hitRate = (if length goTrials > 0
                      then real (length goCorrect) / real (length goTrials) * 100 else 0),
          correctRejectionRate = (if length nogoTrials > 0
                      then real (length nogoCorrect) / real (length nogoTrials) * 100 else 0),
          falseAlarmRate = (if length nogoTrials > 0
                      then (real (length nogoTrials) - real (length nogoCorrect))
                           / real (length nogoTrials) * 100 else 0),
          avgGoRT = (if length goResponseTimes > 0
                      then real_of_int (sum_list goResponseTimes) / real (length goResponseTimes)
                      else 0),
          overallAccuracy =
            map_option (\<lambda>q. q * 100)
              (js_div (real (length (filter gr_correct results))) (real (length results)))\<rparr>)"

subsection \<open>Stroop (component StroopTask, games/attention-inhibition/StroopTask.tsx)\<close>

datatype speed_level = Slow | Normal | Fast

datatype stroop_feedback = S_correct | S_incorrect | S_timeout

record stroop_trial =
  s_word :: string
  s_backgroundColor :: string
  s_backgroundColorName :: string
  isMatch :: bool

record stroop_result =
  sr_trial :: stroop_trial
  sr_response :: bool
  sr_correct :: bool
  sr_responseTime :: int


fun trialDuration :: "speed_level \<Rightarrow> int" where
  "trialDuration Slow = 3000"
| "trialDuration Normal = 2000"
| "trialDuration Fast = 1200"


record stroop_stats =
  st_accuracy :: "real option"
  st_avgResponseTime :: real
  matchAccuracy :: real
  noMatchAccuracy :: real
  timeouts :: nat

definition stroop_calculateStats :: "speed_level \<Rightarrow> stroop_result list \<Rightarrow> stroop_stats" where
  "stroop_calculateStats speedLevel results =
     (let answeredTrials = filter (\<lambda>r. sr_responseTime r < trialDuration speedLevel) results;
          correctTrials = filter sr_correct results;
          matchTrials = filter (\<lambda>r. isMatch (sr_trial r)) results;
          noMatchTrials = filter (\<lambda>r. \<not> isMatch (sr_trial r)) results
      in \<lparr>st_accuracy =
            map_option (\<lambda>q. q * 100)
              (js_div (real (length correctTrials)) (real (length results))),
          st_avgResponseTime = (if length answeredTrials > 0
              then real_of_int (sum_list (map sr_responseTime answeredTrials))
                   / real (length answeredTrials)
              else 0),
          matchAccuracy = (if length matchTrials > 0
              then real (length (filter sr_correct matchTrials)) / real (length matchTrials) * 100
              else 0),
          noMatchAccuracy = (if length noMatchTrials > 0
              then real (length (filter sr_correct noMatchTrials))
                   / real (length noMatchTrials) * 100
              else 0),
          timeouts =
            length (filter (\<lambda>r. sr_responseTime r \<ge> trialDuration speedLevel) results)\<rparr>)"

subsection \<open>Flanker (component FlankerTask, games/attention-inhibition/FlankerTask.tsx)\<close>

datatype flanker_type = Congruent | Incongruent | Neutral

datatype direction = Left | Right

text \<open>The three characters an arrow string is made of: left arrow, right arrow, dash.\<close>

datatype arrow_symbol = Left_arrow | Right_arrow | Dash

record flanker_trial =
  arrows :: "arrow_symbol list"
  targetDirection :: direction
  f_type :: flanker_type

record flanker_result =
  fr_trial :: flanker_trial
  fr_response :: direction
  fr_correct :: bool
  fr_responseTime :: int

record flanker_state =
  f_phase :: game_phase
  f_countdown :: int
  f_trials :: "flanker_trial list"
  f_currentTrial :: nat
  f_trialStart :: int
  f_results :: "flanker_result list"
  f_feedback :: "feedback option"
  f_showFixation :: bool

definition FLANKER_TOTAL_TRIALS :: nat where "FLANKER_TOTAL_TRIALS = 24"

text \<open>The body of the generating loop of \<^verbatim>\<open>generateTrials\<close>: the trial pushed in round \<open>i\<close>.\<close>

definition flanker_trial_at :: "nat \<Rightarrow> flanker_trial" where
  "flanker_trial_at i =
     (let types = [Congruent, Congruent, Incongruent, Incongruent, Neutral, Neutral];
          directions = [Left, Right];
          ty = types ! (i mod length types);
          targetDirection = directions ! (i mod 2);
          target = (if targetDirection = Left then Left_arrow else Right_arrow);
          opposite = (if targetDirection = Left then Right_arrow else Left_arrow)
      in \<lparr>arrows = (case ty of
                       Congruent \<Rightarrow> [target, target, target, target, target]
                     | Incongruent \<Rightarrow> [opposite, opposite, target, opposite, opposite]
                     | Neutral \<Rightarrow> [Dash, target, Dash]),
          targetDirection = targetDirection,
          f_type = ty\<rparr>)"

definition flanker_generateTrials :: "(nat \<Rightarrow> random_draw) \<Rightarrow> flanker_trial list" where
  "flanker_generateTrials rnd = shuffle rnd 0 (map flanker_trial_at [0..<FLANKER_TOTAL_TRIALS])"

definition flanker_startGame :: "(nat \<Rightarrow> random_draw) \<Rightarrow> flanker_state \<Rightarrow> flanker_state" where
  "flanker_startGame rnd s =
     s\<lparr>f_trials := flanker_generateTrials rnd, f_phase := Countdown, f_countdown := 3\<rparr>"

definition flanker_countdownEffect :: "flanker_state \<Rightarrow> flanker_state" where
  "flanker_countdownEffect s =
     (if f_phase s = Countdown \<and> f_countdown s > 0 then s\<lparr>f_countdown := f_countdown s - 1\<rparr>
      else if f_phase s = Countdown \<and> f_countdown s = 0
      then s\<lparr>f_phase := Playing, f_currentTrial := 0, f_results := [], f_showFixation := True\<rparr>
      else s)"

definition flanker_fixationTimer :: "int \<Rightarrow> flanker_state \<Rightarrow> flanker_state" where
  "flanker_fixationTimer now s =
     (if f_phase s = Playing \<and> f_showFixation s
      then s\<lparr>f_showFixation := False, f_trialStart := now\<rparr>
      else s)"

definition flanker_handleResponse :: "direction \<Rightarrow> int \<Rightarrow> flanker_state \<Rightarrow> flanker_state" where
  "flanker_handleResponse response now s =
     (if f_phase s \<noteq> Playing \<or> f_showFixation s then s
      else case js_index (f_trials s) (f_currentTrial s) of
             None \<Rightarrow> s
           | Some trial \<Rightarrow>
               (let responseTime = now - f_trialStart s;
                    correct = (response = targetDirection trial);
                    result = \<lparr>fr_trial = trial, fr_response = response, fr_correct = correct,
                              fr_responseTime = responseTime\<rparr>
                in s\<lparr>f_results := f_results s @ [result],
                     f_feedback := Some (if correct then Correct else Incorrect),
                     f_phase := Feedback\<rparr>))"

definition flanker_feedbackTimer :: "flanker_state \<Rightarrow> flanker_state" where
  "flanker_feedbackTimer s =
     (if f_phase s = Feedback
      then (if f_currentTrial s + 1 \<ge> FLANKER_TOTAL_TRIALS
            then s\<lparr>f_feedback := None, f_phase := Results\<rparr>
            else s\<lparr>f_feedback := None, f_currentTrial := f_currentTrial s + 1,
                   f_showFixation := True, f_phase := Playing\<rparr>)
      else s)"

datatype flanker_event =
  F_StartGame "nat \<Rightarrow> random_draw" | F_CountdownEffect | F_FixationTimer int
  | F_Response direction int | F_FeedbackTimer

fun flanker_step :: "flanker_state \<Rightarrow> flanker_event \<Rightarrow> flanker_state" where
  "flanker_step s (F_StartGame rnd) = flanker_startGame rnd s"
| "flanker_step s F_CountdownEffect = flanker_countdownEffect s"
| "flanker_step s (F_FixationTimer now) = flanker_fixationTimer now s"
| "flanker_step s (F_Response response now) = flanker_handleResponse response now s"
| "flanker_step s F_FeedbackTimer = flanker_feedbackTimer s"

definition flanker_run :: "flanker_state \<Rightarrow> flanker_event list \<Rightarrow> flanker_state" where
  "flanker_run = foldl flanker_step"

record flanker_stats =
  fl_accuracy :: "real option"
  fl_avgResponseTime :: "real option"
  flankerEffect :: real
  congruentRT :: real
  incongruentRT :: real
  congruentAcc :: real
  incongruentAcc :: real

definition flanker_calculateStats :: "flanker_result list \<Rightarrow> flanker_stats" where
  "flanker_calculateStats results =
     (let correctTrials = filter fr_correct results;
          congruentTrials = filter (\<lambda>r. f_type (fr_trial r) = Congruent) results;
          incongruentTrials = filter (\<lambda>r. f_type (fr_trial r) = Incongruent) results;
          congruentRT = (if length congruentTrials > 0
              then real_of_int (sum_list (map fr_responseTime congruentTrials))
                   / real (length congruentTrials)
              else 0);
          incongruentRT = (if length incongruentTrials > 0
              then real_of_int (sum_list (map fr_responseTime incongruentTrials))
                   / real (length incongruentTrials)
              else 0)
      in \<lparr>fl_accuracy =
            map_option (\<lambda>q. q * 100)
              (js_div (real (length correctTrials)) (real (length results))),
          fl_avgResponseTime =
            js_div (real_of_int (sum_list (map fr_responseTime results))) (real (length results)),
          flankerEffect = incongruentRT - congruentRT,
          congruentRT = congruentRT,
          incongruentRT = incongruentRT,
          congruentAcc = (if length congruentTrials > 0
              then real (length (filter fr_correct congruentTrials))
                   / real (length congruentTrials) * 100
              else 0),
          incongruentAcc = (if length incongruentTrials > 0
              then real (length (filter fr_correct incongruentTrials))
                   / real (length incongruentTrials) * 100
              else 0)\<rparr>)"

subsection \<open>Task Switching (component TaskSwitching, listed after UFOV in UFOV.tsx)\<close>

datatype task_type = Number_task | Letter_task

record switch_trial =
  t_number :: int
  t_letter :: string
  task :: task_type
  isSwitch :: bool

record switch_result =
  tr_trial :: switch_trial
  tr_response :: string
  tr_correct :: bool
  tr_responseTime :: int

record switch_state =
  ts_phase :: game_phase
  ts_countdown :: int
  ts_trials :: "switch_trial list"
  ts_currentTrial :: nat
  ts_trialStart :: int
  ts_results :: "switch_result list"
  ts_feedback :: "feedback option"
  ts_showFixation :: bool

definition NUMBERS :: "int list" where "NUMBERS = [1, 2, 3, 4, 6, 7, 8, 9]"
definition VOWELS :: "string list" where "VOWELS = [''A'', ''E'', ''I'', ''U'']"
definition CONSONANTS :: "string list" where "CONSONANTS = [''G'', ''K'', ''M'', ''R'']"
definition SWITCH_TOTAL_TRIALS :: nat where "SWITCH_TOTAL_TRIALS = 32"

definition switch_initial :: switch_state where
  "switch_initial =
     \<lparr>ts_phase = Instructions, ts_countdown = 3, ts_trials = [], ts_currentTrial = 0,
      ts_trialStart = 0, ts_results = [], ts_feedback = None, ts_showFixation = False\<rparr>"

text \<open>
  The loop of \<^verbatim>\<open>generateTrials\<close>, \<open>m\<close> rounds from index \<open>i\<close> on, drawing from index \<open>k\<close>
  on.  The draw of the switch test is made only when \<^verbatim>\<open>i > 0\<close> holds and
  \<^verbatim>\<open>i % 4 === 0\<close> does not; the draws for the number and the letter follow.
\<close>

fun switch_generate_loop ::
  "(nat \<Rightarrow> random_draw) \<Rightarrow> nat \<Rightarrow> nat \<Rightarrow> nat \<Rightarrow> task_type \<Rightarrow> switch_trial list
   \<Rightarrow> switch_trial list" where
  "switch_generate_loop rnd 0 i k lastTask newTrials = newTrials"
| "switch_generate_loop rnd (Suc m) i k lastTask newTrials =
     (let drawn = (i > 0 \<and> i mod 4 \<noteq> 0);
          shouldSwitch = (i > 0 \<and> (i mod 4 = 0 \<or> draw_value (rnd k) < 0.3));
          k1 = (if drawn then k + 1 else k);
          task = (if shouldSwitch
                  then (if lastTask = Number_task then Letter_task else Number_task)
                  else lastTask);
          number = NUMBERS ! nat \<lfloor>draw_value (rnd k1) * real (length NUMBERS)\<rfloor>;
          letters = VOWELS @ CONSONANTS;
          letter = letters ! nat \<lfloor>draw_value (rnd (k1 + 1)) * real (length letters)\<rfloor>
      in switch_generate_loop rnd m (i + 1) (k1 + 2) task
           (newTrials @ [\<lparr>t_number = number, t_letter = letter, task = task,
                           isSwitch = (i > 0 \<and> task \<noteq> lastTask)\<rparr>]))"

definition switch_generateTrials :: "(nat \<Rightarrow> random_draw) \<Rightarrow> switch_trial list" where
  "switch_generateTrials rnd =
     switch_generate_loop rnd SWITCH_TOTAL_TRIALS 0 1
       (if draw_value (rnd 0) > 0.5 then Number_task else Letter_task) []"

definition switch_startGame :: "(nat \<Rightarrow> random_draw) \<Rightarrow> switch_state \<Rightarrow> switch_state" where
  "switch_startGame rnd s =
     s\<lparr>ts_trials := switch_generateTrials rnd, ts_phase := Countdown, ts_countdown := 3\<rparr>"

definition switch_countdownEffect :: "switch_state \<Rightarrow> switch_state" where
  "switch_countdownEffect s =
     (if ts_phase s = Countdown \<and> ts_countdown s > 0
      then s\<lparr>ts_countdown := ts_countdown s - 1\<rparr>
      else if ts_phase s = Countdown \<and> ts_countdown s = 0
      then s\<lparr>ts_phase := Playing, ts_currentTrial := 0, ts_results := [],
             ts_showFixation := True\<rparr>
      else s)"

definition switch_fixationTimer :: "int \<Rightarrow> switch_state \<Rightarrow> switch_state" where
  "switch_fixationTimer now s =
     (if ts_phase s = Playing \<and> ts_showFixation s
      then s\<lparr>ts_showFixation := False, ts_trialStart := now\<rparr>
      else s)"

definition switch_handleResponse :: "string \<Rightarrow> int \<Rightarrow> switch_state \<Rightarrow> switch_state outcome" where
  "switch_handleResponse response now s =
     (if ts_phase s \<noteq> Playing \<or> ts_showFixation s then Returned s
      else case js_index (ts_trials s) (ts_currentTrial s) of
             None \<Rightarrow> TypeError s
           | Some trial \<Rightarrow>
               (let responseTime = now - ts_trialStart s;
                    correct =
                      (if task trial = Number_task
                       then (let isEven = (t_number trial mod 2 = 0)
                             in (response = ''even'' \<and> isEven) \<or> (response = ''odd'' \<and> \<not> isEven))
                       else (let isVowel = (t_letter trial \<in> set VOWELS)
                             in (response = ''vowel'' \<and> isVowel)
                                \<or> (response = ''consonant'' \<and> \<not> isVowel)));
                    result = \<lparr>tr_trial = trial, tr_response = response, tr_correct = correct,
                              tr_responseTime = responseTime\<rparr>
                in Returned (s\<lparr>ts_results := ts_results s @ [result],
                                ts_feedback := Some (if correct then Correct else Incorrect),
                                ts_phase := Feedback\<rparr>)))"

definition switch_feedbackTimer :: "switch_state \<Rightarrow> switch_state" where
  "switch_feedbackTimer s =
     (if ts_phase s = Feedback
      then (if ts_currentTrial s + 1 \<ge> SWITCH_TOTAL_TRIALS
            then s\<lparr>ts_feedback := None, ts_phase := Results\<rparr>
            else s\<lparr>ts_feedback := None, ts_currentTrial := ts_currentTrial s + 1,
                   ts_showFixation := True, ts_phase := Playing\<rparr>)
      else s)"

datatype switch_event =
  T_StartGame "nat \<Rightarrow> random_draw" | T_CountdownEffect | T_FixationTimer int
  | T_Response string int | T_FeedbackTimer

fun switch_step :: "switch_state \<Rightarrow> switch_event \<Rightarrow> switch_state" where
  "switch_step s (T_StartGame rnd) = switch_startGame rnd s"
| "switch_step s T_CountdownEffect = switch_countdownEffect s"
| "switch_step s (T_FixationTimer now) = switch_fixationTimer now s"
| "switch_step s (T_Response response now) = state_of (switch_handleResponse response now s)"
| "switch_step s T_FeedbackTimer = switch_feedbackTimer s"

definition switch_run :: "switch_state \<Rightarrow> switch_event list \<Rightarrow> switch_state" where
  "switch_run = foldl switch_step"

record switch_stats =
  sw_accuracy :: "real option"
  avgRT :: "real option"
  switchRT :: real
  repeatRT :: real
  switchCost :: real
  switchAcc :: real

definition switch_calculateStats :: "switch_result list \<Rightarrow> switch_stats" where
  "switch_calculateStats results =
     (let correctTrials = filter tr_correct results;
          switchTrials = filter (\<lambda>r. isSwitch (tr_trial r)) results;
          repeatTrials = filter (\<lambda>r. \<not> isSwitch (tr_trial r)) results;
          switchRT = (if length switchTrials > 0
              then real_of_int (sum_list (map tr_responseTime switchTrials))
                   / real (length switchTrials)
              else 0);
          repeatRT = (if length repeatTrials > 0
              then real_of_int (sum_list (map tr_responseTime repeatTrials))
                   / real (length repeatTrials)
              else 0)
      in \<lparr>sw_accuracy =
            map_option (\<lambda>q. q * 100)
              (js_div (real (length correctTrials)) (real (length results))),
          avgRT =
            js_div (real_of_int (sum_list (map tr_responseTime results))) (real (length results)),
          switchRT = switchRT,
          repeatRT = repeatRT,
          switchCost = switchRT - repeatRT,
          switchAcc = (if length switchTrials > 0
              then real (length (filter tr_correct switchTrials))
                   / real (length switchTrials) * 100
              else 0)\<rparr>)"


definition flanker_initial :: flanker_state where
  "flanker_initial =
     \<lparr>f_phase = Instructions, f_countdown = 3, f_trials = [], f_currentTrial = 0,
      f_trialStart = 0, f_results = [], f_feedback = None, f_showFixation = False\<rparr>"

subsection \<open>N-Back (component NBack, listed after GoNoGo in GoNoGo.tsx)\<close>

text \<open>\<^verbatim>\<open>xs[i]\<close> on an array whose entries may themselves be \<^verbatim>\<open>undefined\<close> (\<open>None\<close>).\<close>

definition js_index_u :: "'a option list \<Rightarrow> nat \<Rightarrow> 'a option" where
  "js_index_u xs i = (if i < length xs then xs ! i else None)"

definition LETTERS :: "string list" where
  "LETTERS = [''B'', ''C'', ''D'', ''F'', ''G'', ''H'', ''J'', ''K'', ''L'', ''M'',
              ''N'', ''P'', ''Q'', ''R'', ''S'', ''T'', ''V'', ''W'', ''X'', ''Z'']"

definition NBACK_TOTAL_TRIALS :: nat where "NBACK_TOTAL_TRIALS = 25"
definition TARGET_RATIO :: real where "TARGET_RATIO = 0.3"

text \<open>
  The inner loop of \<^verbatim>\<open>generateSequence\<close>:
  \<^verbatim>\<open>do { letter = LETTERS[Math.floor(Math.random() * LETTERS.length)]; }
  while (i >= n && letter === seq[i - n]);\<close>
  \<open>has_prev\<close> is \<^verbatim>\<open>i >= n\<close> and \<open>prev\<close> is \<^verbatim>\<open>seq[i - n]\<close>; the loop draws from index \<open>k\<close>
  on and returns the letter with the index of the next draw.  Nothing bounds the number
  of rounds, so the loop is a partial function: \<open>None\<close> when it never ends.
\<close>

partial_function (option) draw_letter ::
  "(nat \<Rightarrow> random_draw) \<Rightarrow> nat \<Rightarrow> bool \<Rightarrow> string option \<Rightarrow> (string \<times> nat) option" where
  "draw_letter rnd k has_prev prev =
     (let letter = LETTERS ! nat \<lfloor>draw_value (rnd k) * real (length LETTERS)\<rfloor>
      in if has_prev \<and> Some letter = prev then draw_letter rnd (k + 1) has_prev prev
         else Some (letter, k + 1))"

text \<open>
  The outer loop, \<open>m\<close> iterations from index \<open>i\<close> on.  The sequence is an array of
  letters; \<^verbatim>\<open>seq.push(seq[i - n])\<close> pushes whatever the read returns.  The draw that
  decides on a target is only made when the two tests before it hold.
\<close>

fun generate_loop ::
  "nat \<Rightarrow> (nat \<Rightarrow> random_draw) \<Rightarrow> nat \<Rightarrow> nat \<Rightarrow> nat \<Rightarrow> string option list \<Rightarrow> nat
   \<Rightarrow> (string option list \<times> nat) option" where
  "generate_loop n rnd 0 i k seq currentTargets = Some (seq, currentTargets)"
| "generate_loop n rnd (Suc m) i k seq currentTargets =
     (let targetCount = nat \<lfloor>real NBACK_TOTAL_TRIALS * TARGET_RATIO\<rfloor>;
          drawn = (i \<ge> n \<and> currentTargets < targetCount);
          k1 = (if drawn then k + 1 else k)
      in if drawn \<and> draw_value (rnd k) < 0.4
         then generate_loop n rnd m (i + 1) k1 (seq @ [js_index_u seq (i - n)])
                (currentTargets + 1)
         else (case draw_letter rnd k1 (i \<ge> n) (js_index_u seq (i - n)) of
                 None \<Rightarrow> None
               | Some (letter, k2) \<Rightarrow>
                   generate_loop n rnd m (i + 1) k2 (seq @ [Some letter]) currentTargets))"

definition generateSequence :: "nat \<Rightarrow> (nat \<Rightarrow> random_draw) \<Rightarrow> string option list option" where
  "generateSequence n rnd = map_option fst (generate_loop n rnd NBACK_TOTAL_TRIALS 0 0 [] 0)"

text \<open>The test both \<^verbatim>\<open>handleResponse\<close> and the stimulus timer make on the shown letter.\<close>

definition isTarget :: "nat \<Rightarrow> string option list \<Rightarrow> nat \<Rightarrow> bool" where
  "isTarget nLevel sequence currentIndex =
     (currentIndex \<ge> nLevel
      \<and> js_index_u sequence currentIndex = js_index_u sequence (currentIndex - nLevel))"

text \<open>A sample stream of draws: 0, 0.2, 0.4, 0.6, 0.8, 0, 0.2, ...\<close>

definition sample_draws :: "nat \<Rightarrow> random_draw" where
  "sample_draws k = Draw (real (k mod 5) / 5)"

subsection \<open>Tower of Hanoi (component TowerOfHanoi, listed after RavensMatrices in RavensMatrices.tsx)\<close>

datatype hanoi_phase = H_instructions | H_countdown | H_playing | H_results

record disk =
  disk_id :: nat
  disk_size :: nat

text \<open>
  \<^verbatim>\<open>Towers\<close> is a triple of arrays; every tower lists its disks from the bottom up, so
  the top disk is the last entry.
\<close>

record hanoi_state =
  h_phase :: hanoi_phase
  h_countdown :: int
  numDisks :: nat
  towers :: "disk list list"
  selectedTower :: "nat option"
  moves :: nat
  startTime :: int
  completionTime :: real
  minMoves :: nat

definition hanoi_initial :: hanoi_state where
  "hanoi_initial =
     \<lparr>h_phase = H_instructions, h_countdown = 3, numDisks = 4, towers = [[], [], []],
      selectedTower = None, moves = 0, startTime = 0, completionTime = 0, minMoves = 0\<rparr>"

text \<open>The loop of \<^verbatim>\<open>initializeTowers\<close>: \<^verbatim>\<open>for (let i = disks; i >= 1; i--) push({id: i, size: i})\<close>.\<close>

fun initialDisks :: "nat \<Rightarrow> disk list" where
  "initialDisks 0 = []"
| "initialDisks (Suc i) = \<lparr>disk_id = Suc i, disk_size = Suc i\<rparr> # initialDisks i"

definition initializeTowers :: "nat \<Rightarrow> disk list list" where
  "initializeTowers disks = [initialDisks disks, [], []]"

text \<open>The difficulty buttons of the instructions screen.\<close>

definition setNumDisks :: "nat \<Rightarrow> hanoi_state \<Rightarrow> hanoi_state" where
  "setNumDisks n s = s\<lparr>numDisks := n\<rparr>"

definition hanoi_startGame :: "hanoi_state \<Rightarrow> hanoi_state" where
  "hanoi_startGame s =
     s\<lparr>h_phase := H_countdown, h_countdown := 3, minMoves := 2 ^ numDisks s - 1\<rparr>"

definition hanoi_countdownEffect :: "int \<Rightarrow> hanoi_state \<Rightarrow> hanoi_state" where
  "hanoi_countdownEffect now s =
     (if h_phase s = H_countdown \<and> h_countdown s > 0 then s\<lparr>h_countdown := h_countdown s - 1\<rparr>
      else if h_phase s = H_countdown \<and> h_countdown s = 0
      then s\<lparr>towers := initializeTowers (numDisks s), moves := 0, selectedTower := None,
             startTime := now, h_phase := H_playing\<rparr>
      else s)"

text \<open>
  \<^verbatim>\<open>handleTowerClick\<close>.  Reading a tower outside the triple gives \<^verbatim>\<open>undefined\<close>, whose
  \<^verbatim>\<open>length\<close> throws.  With an empty source tower \<^verbatim>\<open>diskToMove\<close> is \<^verbatim>\<open>undefined\<close>: reading
  its size throws when the target holds a disk, and on an empty target the
  \<^verbatim>\<open>undefined\<close> entry placed there makes the rendering that follows throw
  (\<^verbatim>\<open>disk.id\<close>); both are the \<open>TypeError\<close> outcome, carrying the state before the click.
  No state reached in a game has an empty selected tower (\<open>hanoi_inv\<close> below).
\<close>

definition handleTowerClick :: "nat \<Rightarrow> int \<Rightarrow> hanoi_state \<Rightarrow> hanoi_state outcome" where
  "handleTowerClick towerIndex now s =
     (if h_phase s \<noteq> H_playing then Returned s
      else case selectedTower s of
        None \<Rightarrow>
          (case js_index (towers s) towerIndex of
             None \<Rightarrow> TypeError s
           | Some tower \<Rightarrow>
               if length tower > 0 then Returned (s\<lparr>selectedTower := Some towerIndex\<rparr>)
               else Returned s)
      | Some selected \<Rightarrow>
          if selected = towerIndex then Returned (s\<lparr>selectedTower := None\<rparr>)
          else (case (js_index (towers s) selected, js_index (towers s) towerIndex) of
                  (Some sourceTower, Some targetTower) \<Rightarrow>
                    (if sourceTower = [] then TypeError s
                     else let diskToMove = last sourceTower
                          in if length targetTower = 0
                                \<or> disk_size diskToMove < disk_size (last targetTower)
                             then (let newTowers = (towers s)
                                         [selected := butlast sourceTower,
                                          towerIndex := targetTower @ [diskToMove]];
                                       s' = s\<lparr>towers := newTowers, moves := moves s + 1\<rparr>;
                                       s'' = (if length (newTowers ! 2) = numDisks s
                                              then s'\<lparr>completionTime :=
                                                        real_of_int (now - startTime s) / 1000,
                                                      h_phase := H_results\<rparr>
                                              else s')
                                   in Returned (s''\<lparr>selectedTower := None\<rparr>))
                             else Returned (s\<lparr>selectedTower := None\<rparr>))
                | _ \<Rightarrow> TypeError s))"

text \<open>A session of clicks: each click is a tower index and the time it happens at.\<close>

definition hanoi_click :: "hanoi_state \<Rightarrow> nat \<times> int \<Rightarrow> hanoi_state" where
  "hanoi_click s c = state_of (handleTowerClick (fst c) (snd c) s)"

definition hanoi_clicks :: "hanoi_state \<Rightarrow> (nat \<times> int) list \<Rightarrow> hanoi_state" where
  "hanoi_clicks = foldl hanoi_click"

text \<open>
  The state a game of \<open>n\<close> disks starts playing in: the difficulty chosen, the game
  started, the countdown run down from 3 and its last effect run at time \<open>now\<close>.
\<close>

definition hanoi_start :: "nat \<Rightarrow> int \<Rightarrow> hanoi_state" where
  "hanoi_start n now =
     hanoi_countdownEffect now (hanoi_countdownEffect now (hanoi_countdownEffect now
       (hanoi_countdownEffect now (hanoi_startGame (setNumDisks n hanoi_initial)))))"

subsection \<open>The puzzle behind the Tower of Hanoi game\<close>

text \<open>
  For the lower bound on the number of moves the towers are read as a configuration:
  the tower each disk size is on (3 for a size on no tower).  A move of disk \<open>d\<close> to
  tower \<open>q\<close> is legal when no smaller disk lies on the tower of \<open>d\<close> or on \<open>q\<close>.
\<close>

type_synonym config = "nat \<Rightarrow> nat"

definition tower_of :: "disk list list \<Rightarrow> config" where
  "tower_of tws d =
     (if d \<in> disk_size ` set (tws ! 0) then 0
      else if d \<in> disk_size ` set (tws ! 1) then 1
      else if d \<in> disk_size ` set (tws ! 2) then 2 else 3)"

definition legal :: "config \<Rightarrow> nat \<Rightarrow> nat \<Rightarrow> bool" where
  "legal c d q \<longleftrightarrow>
     q < 3 \<and> c d \<noteq> q \<and> (\<forall>e. 1 \<le> e \<and> e < d \<longrightarrow> c e \<noteq> c d \<and> c e \<noteq> q)"

fun path :: "config \<Rightarrow> (nat \<times> nat) list \<Rightarrow> config \<Rightarrow> bool" where
  "path c [] c' \<longleftrightarrow> c' = c"
| "path c (m # ms) c' \<longleftrightarrow> legal c (fst m) (snd m) \<and> path (c(fst m := snd m)) ms c'"

definition small_moves :: "nat \<Rightarrow> (nat \<times> nat) list \<Rightarrow> nat" where
  "small_moves n ms = length (filter (\<lambda>m. fst m \<le> n) ms)"

text \<open>What holds of the states of a game of \<open>n\<close> disks once it is being played.\<close>

definition hanoi_inv :: "nat \<Rightarrow> hanoi_state \<Rightarrow> bool" where
  "hanoi_inv n s \<longleftrightarrow>
     numDisks s = n \<and> minMoves s = 2 ^ n - 1 \<and> length (towers s) = 3
     \<and> (\<forall>tower \<in> set (towers s). sorted_wrt (>) (map disk_size tower))
     \<and> mset (map disk_size (concat (towers s))) = mset [1..<Suc n]
     \<and> (case selectedTower s of None \<Rightarrow> True | Some i \<Rightarrow> i < 3 \<and> towers s ! i \<noteq> [])
     \<and> (h_phase s = H_playing \<or> h_phase s = H_results)
     \<and> (h_phase s = H_results \<longrightarrow> length (towers s ! 2) = n)"

subsection \<open>Routing (App.tsx) and the game page (component GamePage, pages/GamePage.tsx)\<close>

text \<open>The components that \<^verbatim>\<open>App\<close> mounts on its routes.\<close>

datatype element =
  Marketplace | StroopTask | FlankerTask | GoNoGo | NBack | DualNBack | CorsiBlocks
  | OperationSpan | TaskSwitching | TrailMaking | UFOV | RavensMatrices | TowerOfHanoi

text \<open>The \<^verbatim>\<open>Route\<close> children of \<^verbatim>\<open>Routes\<close>, in their order: path pattern and element.\<close>

definition routes :: "(string \<times> element) list" where
  "routes =
     [(''/'', Marketplace),
      (''/games/stroop-task'', StroopTask),
      (''/games/flanker-task'', FlankerTask),
      (''/games/go-no-go'', GoNoGo),
      (''/games/n-back'', NBack),
      (''/games/dual-n-back'', DualNBack),
      (''/games/corsi-blocks'', CorsiBlocks),
      (''/games/operation-span'', OperationSpan),
      (''/games/task-switching'', TaskSwitching),
      (''/games/trail-making'', TrailMaking),
      (''/games/ufov'', UFOV),
      (''/games/ravens-matrices'', RavensMatrices),
      (''/games/tower-of-hanoi'', TowerOfHanoi)]"

text \<open>
  \<^verbatim>\<open>App\<close> renders a \<^verbatim>\<open>Routes\<close> over these routes and nothing else: the element of the
  route whose pattern matches the location, and nothing (\<open>None\<close>) when no pattern
  matches.  How a pattern matches a pathname is the router library's business and a
  parameter here.
\<close>

definition App :: "(string \<Rightarrow> string \<Rightarrow> bool) \<Rightarrow> string \<Rightarrow> element option" where
  "App matchPath pathname = map_option snd (find (\<lambda>r. matchPath (fst r) pathname) routes)"

text \<open>The catalogue of \<^verbatim>\<open>data/games.ts\<close>, each entry with its id, name and route.\<close>

record game_metadata =
  gm_id :: string
  gm_name :: string
  gm_route :: string

definition games :: "game_metadata list" where
  "games =
     [\<lparr>gm_id = ''stroop-task'', gm_name = ''Stroop Task'', gm_route = ''/games/stroop-task''\<rparr>,
      \<lparr>gm_id = ''flanker-task'', gm_name = ''Flanker Task'', gm_route = ''/games/flanker-task''\<rparr>,
      \<lparr>gm_id = ''go-no-go'', gm_name = ''Go/No-Go Task'', gm_route = ''/games/go-no-go''\<rparr>,
      \<lparr>gm_id = ''n-back'', gm_name = ''N-Back Task'', gm_route = ''/games/n-back''\<rparr>,
      \<lparr>gm_id = ''dual-n-back'', gm_name = ''Dual N-Back'', gm_route = ''/games/dual-n-back''\<rparr>,
      \<lparr>gm_id = ''corsi-blocks'', gm_name = ''Corsi Block-Tapping Task'',
        gm_route = ''/games/corsi-blocks''\<rparr>,
      \<lparr>gm_id = ''operation-span'', gm_name = ''Operation Span Task'',
        gm_route = ''/games/operation-span''\<rparr>,
      \<lparr>gm_id = ''task-switching'', gm_name = ''Task Switching (Set-Shifting)'',
        gm_route = ''/games/task-switching''\<rparr>,
      \<lparr>gm_id = ''trail-making'', gm_name = ''Trail Making Test (TMT-B)'',
        gm_route = ''/games/trail-making''\<rparr>,
      \<lparr>gm_id = ''ufov'', gm_name = ''Useful Field of View (UFOV)'', gm_route = ''/games/ufov''\<rparr>,
      \<lparr>gm_id = ''ravens-matrices'', gm_name = ''Raven's Progressive Matrices'',
        gm_route = ''/games/ravens-matrices''\<rparr>,
      \<lparr>gm_id = ''tower-of-hanoi'', gm_name = ''Tower of Hanoi / Tower of London'',
        gm_route = ''/games/tower-of-hanoi''\<rparr>]"

text \<open>
  \<^verbatim>\<open>GamePage\<close> looks its \<^verbatim>\<open>gameId\<close> parameter up in the catalogue and shows the
  "Game Not Found" view when no entry has that id.  No route of \<^verbatim>\<open>App\<close> mounts it.
\<close>

datatype page_view = Game_Not_Found | Game_Info game_metadata

definition GamePage :: "string option \<Rightarrow> page_view" where
  "GamePage gameId =
     (case find (\<lambda>g. Some (gm_id g) = gameId) games of
        None \<Rightarrow> Game_Not_Found
      | Some game \<Rightarrow> Game_Info game)"

subsection \<open>Session invariants of the Flanker and Task Switching games\<close>

text \<open>
  Once a game has been started its trials are generated ones; while a trial is played
  the recorded results are those of the trials before it, during feedback and at the
  end they include the current trial.
\<close>

definition flanker_inv :: "flanker_state \<Rightarrow> bool" where
  "flanker_inv s \<longleftrightarrow>
     (f_phase s \<noteq> Instructions \<longrightarrow> (\<exists>rnd. f_trials s = flanker_generateTrials rnd))
     \<and> (f_phase s = Playing \<longrightarrow> f_currentTrial s < FLANKER_TOTAL_TRIALS
          \<and> map fr_trial (f_results s) = take (f_currentTrial s) (f_trials s))
     \<and> (f_phase s = Feedback \<longrightarrow> f_currentTrial s < FLANKER_TOTAL_TRIALS
          \<and> map fr_trial (f_results s) = take (Suc (f_currentTrial s)) (f_trials s))
     \<and> (f_phase s = Results \<longrightarrow> map fr_trial (f_results s) = f_trials s)"

definition switch_inv :: "switch_state \<Rightarrow> bool" where
  "switch_inv s \<longleftrightarrow>
     (ts_phase s \<noteq> Instructions \<longrightarrow> (\<exists>rnd. ts_trials s = switch_generateTrials rnd))
     \<and> (ts_phase s = Playing \<longrightarrow> ts_currentTrial s < SWITCH_TOTAL_TRIALS
          \<and> map tr_trial (ts_results s) = take (ts_currentTrial s) (ts_trials s))
     \<and> (ts_phase s = Feedback \<longrightarrow> ts_currentTrial s < SWITCH_TOTAL_TRIALS
          \<and> map tr_trial (ts_results s) = take (Suc (ts_currentTrial s)) (ts_trials s))
     \<and> (ts_phase s = Results \<longrightarrow> map tr_trial (ts_results s) = ts_trials s)"

text \<open>A whole session: start, countdown, and every trial answered after its fixation.\<close>

definition flanker_session :: "(nat \<Rightarrow> random_draw) \<Rightarrow> flanker_event list" where
  "flanker_session rnd =
     F_StartGame rnd # replicate 4 F_CountdownEffect
     @ concat (replicate FLANKER_TOTAL_TRIALS
         [F_FixationTimer 1000, F_Response Left 1500, F_FeedbackTimer])"

definition switch_session :: "(nat \<Rightarrow> random_draw) \<Rightarrow> switch_event list" where
  "switch_session rnd =
     T_StartGame rnd # replicate 4 T_CountdownEffect
     @ concat (replicate SWITCH_TOTAL_TRIALS
         [T_FixationTimer 1000, T_Response ''even'' 1500, T_FeedbackTimer])"

subsection \<open>Reference notions for the scoring claims\<close>

text \<open>
  The mean of a list of response times as the specification uses the word: defined for
  a non-empty list only.
\<close>

definition mean_rt :: "int list \<Rightarrow> real option" where
  "mean_rt rts = (if rts = [] then None else Some (real_of_int (sum_list rts) / real (length rts)))"

text \<open>Sample recorded results, used as concrete inputs.\<close>

definition sample_switch_result :: "bool \<Rightarrow> int \<Rightarrow> switch_result" where
  "sample_switch_result sw rt =
     \<lparr>tr_trial = \<lparr>t_number = 2, t_letter = ''A'', task = Number_task, isSwitch = sw\<rparr>,
      tr_response = ''even'', tr_correct = True, tr_responseTime = rt\<rparr>"

definition sample_flanker_result :: "flanker_type \<Rightarrow> int \<Rightarrow> flanker_result" where
  "sample_flanker_result ty rt =
     \<lparr>fr_trial = \<lparr>arrows = [Left_arrow], targetDirection = Left, f_type = ty\<rparr>,
      fr_response = Left, fr_correct = True, fr_responseTime = rt\<rparr>"

definition sample_gng_result :: "trial_type \<Rightarrow> bool \<Rightarrow> gng_result" where
  "sample_gng_result ty c =
     \<lparr>gr_trial = \<lparr>g_type = ty, g_shape = (if ty = Go then Circle else Square)\<rparr>,
      gr_responded = (c = (ty = Go)), gr_correct = c,
      gr_responseTime = (if c = (ty = Go) then Some 400 else None)\<rparr>"

definition sample_stroop_result :: "bool \<Rightarrow> stroop_result" where
  "sample_stroop_result c =
     \<lparr>sr_trial = \<lparr>s_word = ''RED'', s_backgroundColor = ''#ef4444'',
                   s_backgroundColorName = ''RED'', isMatch = True\<rparr>,
      sr_response = c, sr_correct = c, sr_responseTime = 800\<rparr>"

section \<open>Properties\<close>

subsection \<open>UFOV: the display-time staircase\<close>

lemma ufov_step_bounds:
  assumes "50 \<le> displayTime s" and "displayTime s \<le> 500"
  shows "50 \<le> displayTime (ufov_step s e) \<and> displayTime (ufov_step s e) \<le> 500"
proof (cases e)
  case U_Submit
  with assms show ?thesis
    by (auto simp: handleSubmitResponse_def Let_def split: option.splits)
next
  case U_StartGame
  then show ?thesis by (simp add: ufov_startGame_def INITIAL_DISPLAY_TIME_def)
qed (use assms in \<open>auto simp: ufov_countdownEffect_def ufov_fixationEffect_def
      ufov_fixationTimer_def ufov_stimulusTimer_def ufov_maskTimer_def
      handleCenterResponse_def handlePeripheralResponse_def ufov_feedbackTimer_def\<close>)

lemma ufov_run_bounds:
  "50 \<le> displayTime s \<Longrightarrow> displayTime s \<le> 500 \<Longrightarrow>
   50 \<le> displayTime (ufov_run s es) \<and> displayTime (ufov_run s es) \<le> 500"
  unfolding ufov_run_def
proof (induction es arbitrary: s)
  case Nil
  then show ?case by simp
next
  case (Cons e es)
  from ufov_step_bounds [OF Cons.prems] show ?case
    by (simp add: Cons.IH)
qed

text \<open>
  C6.  A submitted response (both answers chosen, a trial present) moves the display
  time one step of the staircase: down by 50 ms but not below 50 after a trial with both
  answers right, up by 50 ms but not above 500 otherwise.  Whatever events a session
  consists of, the display time of a state reached from the initial one lies in
  [50, 500].
\<close>

theorem ufov_display_time_staircase:
  "(u_centerResponse s = Some c \<and> u_peripheralResponse s = Some p \<and> u_trial s = Some t \<longrightarrow>
      displayTime (handleSubmitResponse s) =
        (if c = centerShape t \<and> p = peripheralPosition t
         then max (displayTime s - 50) 50 else min (displayTime s + 50) 500))
   \<and> 50 \<le> displayTime (ufov_run ufov_initial es)
   \<and> displayTime (ufov_run ufov_initial es) \<le> 500"
proof -
  have "50 \<le> displayTime ufov_initial" "displayTime ufov_initial \<le> 500"
    by (simp_all add: ufov_initial_def INITIAL_DISPLAY_TIME_def)
  from ufov_run_bounds [OF this] show ?thesis
    by (auto simp: handleSubmitResponse_def Let_def)
qed

theorem ufov_display_time_staircase_witness:
  "(let t = \<lparr>centerShape = Car, peripheralPosition = 2, trial_displayTime = 500\<rparr>;
        s = ufov_initial\<lparr>u_trial := Some t, u_centerResponse := Some Car,
                          u_peripheralResponse := Some 2\<rparr>;
        es = [U_StartGame, U_CountdownEffect, U_CountdownEffect, U_CountdownEffect,
              U_CountdownEffect, U_FixationEffect (Draw 0.7) (Draw 0.3), U_FixationTimer, U_StimulusTimer,
              U_MaskTimer, U_Center Car, U_Peripheral 2, U_Submit]
    in u_centerResponse s = Some Car \<and> u_peripheralResponse s = Some 2 \<and> u_trial s = Some t
       \<and> displayTime (handleSubmitResponse s) = 450
       \<and> displayTime (ufov_run ufov_initial es) = 450
       \<and> 50 \<le> displayTime (ufov_run ufov_initial es)
       \<and> displayTime (ufov_run ufov_initial es) \<le> 500)"
  using ufov_display_time_staircase
    [of "ufov_initial\<lparr>u_trial := Some \<lparr>centerShape = Car, peripheralPosition = 2,
           trial_displayTime = 500\<rparr>, u_centerResponse := Some Car,
           u_peripheralResponse := Some 2\<rparr>"
        Car 2 "\<lparr>centerShape = Car, peripheralPosition = 2, trial_displayTime = 500\<rparr>"
        "[U_StartGame, U_CountdownEffect, U_CountdownEffect, U_CountdownEffect,
          U_CountdownEffect, U_FixationEffect (Draw 0.7) (Draw 0.3), U_FixationTimer, U_StimulusTimer,
          U_MaskTimer, U_Center Car, U_Peripheral 2, U_Submit]"]
  by (simp add: ufov_run_def ufov_initial_def INITIAL_DISPLAY_TIME_def POSITIONS_def Draw_inverse
      ufov_startGame_def ufov_countdownEffect_def ufov_fixationEffect_def
      ufov_generateTrial_def ufov_fixationTimer_def ufov_stimulusTimer_def ufov_maskTimer_def
      handleCenterResponse_def handlePeripheralResponse_def handleSubmitResponse_def)

subsection \<open>The shuffle is a permutation\<close>

lemma draw_index_le: "nat \<lfloor>draw_value r * real (Suc n)\<rfloor> \<le> n"
proof -
  from draw_value [of r] have r: "0 \<le> draw_value r" "draw_value r < 1" by simp_all
  then have "draw_value r * real (Suc n) < real (Suc n)" by simp
  then have "\<lfloor>draw_value r * real (Suc n)\<rfloor> < int (Suc n)"
    by (simp add: floor_less_iff)
  then show ?thesis by linarith
qed

lemma mset_shuffle_loop: "i < length xs \<Longrightarrow> mset (shuffle_loop rnd k i xs) = mset xs"
proof (induction i arbitrary: k xs)
  case 0
  then show ?case by simp
next
  case (Suc i)
  let ?j = "nat \<lfloor>draw_value (rnd k) * real (Suc i + 1)\<rfloor>"
  have j: "?j < length xs"
    using draw_index_le [of "rnd k" "Suc i"] Suc.prems by simp
  have "mset (xs[Suc i := xs ! ?j, ?j := xs ! Suc i]) = mset xs"
    using j Suc.prems by (rule mset_swap)
  with Suc show ?case by (simp add: Let_def)
qed

lemma mset_shuffle: "mset (shuffle rnd k xs) = mset xs"
proof (cases xs)
  case Nil
  then show ?thesis by (simp add: shuffle_def)
next
  case (Cons a list)
  then show ?thesis by (simp add: shuffle_def mset_shuffle_loop)
qed

lemma length_filter_mset_eq:
  "mset xs = mset ys \<Longrightarrow> length (filter P xs) = length (filter P ys)"
  by (metis mset_filter size_mset)

subsection \<open>Go/No-Go: the generated trials\<close>

lemma goCount: "nat \<lfloor>real TOTAL_TRIALS * GO_RATIO\<rfloor> = 21"
  by (simp add: TOTAL_TRIALS_def GO_RATIO_def)

lemma mset_generateTrials:
  "mset (generateTrials rnd) =
   mset (replicate 21 \<lparr>g_type = Go, g_shape = Circle\<rparr>
         @ replicate 9 \<lparr>g_type = Nogo, g_shape = Square\<rparr>)"
  unfolding generateTrials_def goCount Let_def
  by (simp add: mset_shuffle TOTAL_TRIALS_def)

lemma length_generateTrials: "length (generateTrials rnd) = 30"
  using mset_eq_length [OF mset_generateTrials [of rnd]] by simp

text \<open>
  \<open>goCount\<close> is the same in double arithmetic: the double nearest to 0.7 is
  \<^verbatim>\<open>6305039478318694 / 2^53\<close>, thirty times it lies \<^verbatim>\<open>12 / 2^53\<close> below 21, and doubles
  between 16 and 32 are \<^verbatim>\<open>1 / 2^48\<close> apart, so the product rounds to 21 itself.  For the
  N-Back generator the product of 25 and the double nearest to 0.3 lies within
  \<^verbatim>\<open>1 / 2^50\<close> of 7.5, and its floor is 7 however it is rounded.
\<close>

lemma goCount_in_doubles:
  "(21 :: real) - 30 * (6305039478318694 / 2 ^ 53) = 12 / 2 ^ 53"
  "(12 :: real) / 2 ^ 53 < (1 / 2 ^ 48) / 2"
  by simp_all

text \<open>
  C1.  Whatever the shuffle draws, the generated sequence is a permutation of 21 go
  trials followed by 9 no-go trials: it has \<open>\<lfloor>TOTAL_TRIALS * GO_RATIO\<rfloor> = \<lfloor>30 * 0.7\<rfloor> = 21\<close>
  trials of type go, \<open>TOTAL_TRIALS\<close> minus that count (9) of type no-go, and
  \<open>TOTAL_TRIALS\<close> trials in all.
\<close>

theorem generateTrials_counts:
  "mset (generateTrials rnd) =
     mset (replicate 21 \<lparr>g_type = Go, g_shape = Circle\<rparr>
           @ replicate 9 \<lparr>g_type = Nogo, g_shape = Square\<rparr>)
   \<and> length (filter (\<lambda>t. g_type t = Go) (generateTrials rnd))
       = nat \<lfloor>real TOTAL_TRIALS * GO_RATIO\<rfloor>
   \<and> length (filter (\<lambda>t. g_type t = Nogo) (generateTrials rnd))
       = TOTAL_TRIALS - nat \<lfloor>real TOTAL_TRIALS * GO_RATIO\<rfloor>
   \<and> nat \<lfloor>real TOTAL_TRIALS * GO_RATIO\<rfloor> = nat \<lfloor>30 * 0.7 :: real\<rfloor>
   \<and> nat \<lfloor>30 * 0.7 :: real\<rfloor> = 21
   \<and> length (generateTrials rnd) = TOTAL_TRIALS"
proof -
  let ?xs = "replicate 21 \<lparr>g_type = Go, g_shape = Circle\<rparr>
             @ replicate 9 \<lparr>g_type = Nogo, g_shape = Square\<rparr>"
  note m = mset_generateTrials [of rnd]
  have g: "length (filter (\<lambda>t. g_type t = Go) (generateTrials rnd))
           = length (filter (\<lambda>t. g_type t = Go) ?xs)"
    using m by (rule length_filter_mset_eq)
  have n: "length (filter (\<lambda>t. g_type t = Nogo) (generateTrials rnd))
           = length (filter (\<lambda>t. g_type t = Nogo) ?xs)"
    using m by (rule length_filter_mset_eq)
  show ?thesis
    using m g n length_generateTrials [of rnd] by (simp add: TOTAL_TRIALS_def GO_RATIO_def)
qed

theorem generateTrials_counts_witness:
  "length (filter (\<lambda>t. g_type t = Go) (generateTrials (\<lambda>k. Draw (1 / 2)))) = 21
   \<and> length (filter (\<lambda>t. g_type t = Nogo) (generateTrials (\<lambda>k. Draw (1 / 2)))) = 9
   \<and> length (generateTrials (\<lambda>k. Draw (1 / 2))) = 30"
  using generateTrials_counts [of "\<lambda>k. Draw (1 / 2)"]
  by (simp add: TOTAL_TRIALS_def GO_RATIO_def)

subsection \<open>Accuracy\<close>

lemma ratio_bounds:
  assumes "xs \<noteq> []"
  shows "0 \<le> real (length (filter P xs)) / real (length xs) * 100"
    and "real (length (filter P xs)) / real (length xs) * 100 \<le> 100"
proof -
  have n: "0 < real (length xs)" using assms by simp
  have "real (length (filter P xs)) \<le> real (length xs)" by simp
  then have q: "real (length (filter P xs)) / real (length xs) \<le> 1"
    using n by (simp add: divide_le_eq)
  from mult_right_mono [OF q, of 100]
  show "real (length (filter P xs)) / real (length xs) * 100 \<le> 100" by simp
  show "0 \<le> real (length (filter P xs)) / real (length xs) * 100" by simp
qed

text \<open>
  C3.  For a non-empty sequence of recorded results, the accuracy that the Go/No-Go,
  Flanker and Stroop scorers compute is a number, it equals 100 times the number of
  results marked correct divided by the number of results, and it lies between 0 and
  100 (both included).
\<close>

theorem accuracy_formula_and_range:
  assumes "gs \<noteq> []" and "fs \<noteq> []" and "ss \<noteq> []"
  shows
  "(\<exists>a. overallAccuracy (gng_calculateStats gs) = Some a
        \<and> a = 100 * (real (length (filter gr_correct gs)) / real (length gs))
        \<and> 0 \<le> a \<and> a \<le> 100)
   \<and> (\<exists>a. fl_accuracy (flanker_calculateStats fs) = Some a
        \<and> a = 100 * (real (length (filter fr_correct fs)) / real (length fs))
        \<and> 0 \<le> a \<and> a \<le> 100)
   \<and> (\<exists>a. st_accuracy (stroop_calculateStats speedLevel ss) = Some a
        \<and> a = 100 * (real (length (filter sr_correct ss)) / real (length ss))
        \<and> 0 \<le> a \<and> a \<le> 100)"
  using assms ratio_bounds [of gs gr_correct] ratio_bounds [of fs fr_correct]
    ratio_bounds [of ss sr_correct]
  by (simp add: gng_calculateStats_def flanker_calculateStats_def stroop_calculateStats_def
      js_div_def Let_def)

theorem accuracy_formula_and_range_witness:
  "[sample_gng_result Go True, sample_gng_result Nogo False] \<noteq> []
   \<and> [sample_flanker_result Congruent 500, sample_flanker_result Incongruent 600] \<noteq> []
   \<and> [sample_stroop_result True, sample_stroop_result False, sample_stroop_result False,
       sample_stroop_result False] \<noteq> []
   \<and> overallAccuracy (gng_calculateStats
        [sample_gng_result Go True, sample_gng_result Nogo False]) = Some 50
   \<and> fl_accuracy (flanker_calculateStats
        [sample_flanker_result Congruent 500, sample_flanker_result Incongruent 600]) = Some 100
   \<and> st_accuracy (stroop_calculateStats Normal
        [sample_stroop_result True, sample_stroop_result False, sample_stroop_result False,
         sample_stroop_result False]) = Some 25"
  using accuracy_formula_and_range
    [of "[sample_gng_result Go True, sample_gng_result Nogo False]"
        "[sample_flanker_result Congruent 500, sample_flanker_result Incongruent 600]"
        "[sample_stroop_result True, sample_stroop_result False, sample_stroop_result False,
          sample_stroop_result False]" Normal]
  by (auto simp: sample_gng_result_def sample_flanker_result_def sample_stroop_result_def)

subsection \<open>Switch cost and flanker effect\<close>

lemma switch_cost_signs:
  "switchCost (switch_calculateStats
     [sample_switch_result True 400, sample_switch_result False 500]) = - 100"
  "switchCost (switch_calculateStats
     [sample_switch_result True 500, sample_switch_result False 500]) = 0"
  "switchCost (switch_calculateStats
     [sample_switch_result True 700, sample_switch_result False 500]) = 200"
  by (simp_all add: switch_calculateStats_def sample_switch_result_def)

lemma flanker_effect_signs:
  "flankerEffect (flanker_calculateStats
     [sample_flanker_result Incongruent 400, sample_flanker_result Congruent 500]) = - 100"
  "flankerEffect (flanker_calculateStats
     [sample_flanker_result Incongruent 500, sample_flanker_result Congruent 500]) = 0"
  "flankerEffect (flanker_calculateStats
     [sample_flanker_result Incongruent 700, sample_flanker_result Congruent 500]) = 200"
  by (simp_all add: flanker_calculateStats_def sample_flanker_result_def)

text \<open>Where a condition has no trial, the scorers put 0 in the place of its mean.\<close>

lemma switch_cost_empty_condition:
  "filter (\<lambda>r. isSwitch (tr_trial r)) rs = [] \<Longrightarrow> switchRT (switch_calculateStats rs) = 0"
  "filter (\<lambda>r. \<not> isSwitch (tr_trial r)) rs = [] \<Longrightarrow> repeatRT (switch_calculateStats rs) = 0"
  by (simp_all add: switch_calculateStats_def Let_def)

subsection \<open>Responses outside the accepting window\<close>



subsection \<open>Go/No-Go: the recorded results\<close>

text \<open>A callback that runs before any other update of its render is the callback run
  right after the render.\<close>

lemma gng_closure_same_render:
  "gng_countdownEffect_closure s s = gng_countdownEffect s"
  "gng_fixationTimer_closure s now s = gng_fixationTimer now s"
  "gng_stimulusTimeout_closure s s = gng_stimulusTimeout s"
  "gng_handleResponse_closure s now s = gng_handleResponse now s"
  "gng_feedbackTimer_closure s s = gng_feedbackTimer s"
  by (simp_all add: gng_countdownEffect_closure_def gng_countdownEffect_def
      gng_fixationTimer_closure_def gng_fixationTimer_def
      gng_stimulusTimeout_closure_def gng_stimulusTimeout_def
      gng_handleResponse_closure_def gng_handleResponse_def
      gng_feedbackTimer_closure_def gng_feedbackTimer_def)

lemma gng_step_results:
  assumes "\<forall>r \<in> set (g_results (g_rendered S)) \<union> set (g_results (g_cells S)). P r"
    and "\<And>t rt. P \<lparr>gr_trial = t, gr_responded = True, gr_correct = (g_type t = Go),
                    gr_responseTime = Some rt\<rparr>"
    and "\<And>t. P \<lparr>gr_trial = t, gr_responded = False, gr_correct = (g_type t = Nogo),
                 gr_responseTime = None\<rparr>"
  shows "\<forall>r \<in> set (g_results (g_rendered (gng_step S e)))
            \<union> set (g_results (g_cells (gng_step S e))). P r"
  using assms
  by (cases e)
    (auto simp: gng_startGame_def gng_countdownEffect_closure_def
      gng_fixationTimer_closure_def gng_stimulusTimeout_closure_def
      gng_handleResponse_closure_def gng_feedbackTimer_closure_def Let_def
      split: option.splits)

lemma gng_run_results:
  assumes "\<forall>r \<in> set (g_results (g_rendered S)) \<union> set (g_results (g_cells S)). P r"
    and "\<And>t rt. P \<lparr>gr_trial = t, gr_responded = True, gr_correct = (g_type t = Go),
                    gr_responseTime = Some rt\<rparr>"
    and "\<And>t. P \<lparr>gr_trial = t, gr_responded = False, gr_correct = (g_type t = Nogo),
                 gr_responseTime = None\<rparr>"
  shows "\<forall>r \<in> set (g_results (g_rendered (gng_run S es)))
            \<union> set (g_results (g_cells (gng_run S es))). P r"
  using assms(1) unfolding gng_run_def
proof (induction es arbitrary: S)
  case Nil
  then show ?case by simp
next
  case (Cons e es)
  have "\<forall>r \<in> set (g_results (g_rendered (gng_step S e)))
            \<union> set (g_results (g_cells (gng_step S e))). P r"
    using Cons.prems assms(2,3) by (rule gng_step_results)
  then show ?case by (simp add: Cons.IH)
qed

text \<open>
  C10.  Every result recorded in a Go/No-Go session (in the rendered or in the queued
  cells of a session reached from the initial one by any callbacks and renders, a
  response on the cells of an outdated render included) has a null response time
  exactly when it is not a response; a response is correct exactly on a go trial, a
  timeout exactly on a no-go trial.
\<close>

theorem gng_recorded_results_consistent:
  assumes "r \<in> set (g_results (g_rendered (gng_run gng_session_initial es)))
             \<union> set (g_results (g_cells (gng_run gng_session_initial es)))"
  shows "(gr_responseTime r = None \<longleftrightarrow> \<not> gr_responded r)
    \<and> (gr_responded r \<longrightarrow> (gr_correct r \<longleftrightarrow> g_type (gr_trial r) = Go))
    \<and> (\<not> gr_responded r \<longrightarrow> (gr_correct r \<longleftrightarrow> g_type (gr_trial r) = Nogo))"
proof -
  let ?P = "\<lambda>r. (gr_responseTime r = None \<longleftrightarrow> \<not> gr_responded r)
    \<and> (gr_responded r \<longrightarrow> (gr_correct r \<longleftrightarrow> g_type (gr_trial r) = Go))
    \<and> (\<not> gr_responded r \<longrightarrow> (gr_correct r \<longleftrightarrow> g_type (gr_trial r) = Nogo))"
  have "\<forall>r \<in> set (g_results (g_rendered (gng_run gng_session_initial es)))
            \<union> set (g_results (g_cells (gng_run gng_session_initial es))). ?P r"
    by (rule gng_run_results) (simp_all add: gng_session_initial_def gng_initial_def)
  with assms show ?thesis by blast
qed

lemma js_index_generateTrials_0:
  "js_index (generateTrials rnd) 0 = Some (generateTrials rnd ! 0)"
  by (simp add: js_index_def length_generateTrials)

text \<open>
  Three sessions on the first trial, the stimulus shown at time 1000: a response at
  1400; no response, so that the stimulus timer records a timeout; and the timeout
  followed, before the next render, by a key press at 2003, which records a response
  after the timeout.
\<close>

theorem gng_recorded_results_consistent_witness:
  "(let rnd = (\<lambda>k. Draw (1 / 2));
        trial = generateTrials rnd ! 0;
        answered = \<lparr>gr_trial = trial, gr_responded = True, gr_correct = (g_type trial = Go),
                    gr_responseTime = Some 400\<rparr>;
        missed = \<lparr>gr_trial = trial, gr_responded = False, gr_correct = (g_type trial = Nogo),
                  gr_responseTime = None\<rparr>;
        late = \<lparr>gr_trial = trial, gr_responded = True, gr_correct = (g_type trial = Go),
                gr_responseTime = Some 1003\<rparr>;
        shown = [G_StartGame rnd, G_Render, G_CountdownEffect, G_Render, G_CountdownEffect,
                 G_Render, G_CountdownEffect, G_Render, G_CountdownEffect, G_Render,
                 G_FixationTimer 1000, G_Render]
    in g_results (g_rendered (gng_run gng_session_initial
           (shown @ [G_Response 1400, G_Render]))) = [answered]
       \<and> g_results (g_rendered (gng_run gng_session_initial
           (shown @ [G_StimulusTimeout, G_Render]))) = [missed]
       \<and> g_results (g_rendered (gng_run gng_session_initial
           (shown @ [G_StimulusTimeout, G_Response 2003, G_Render]))) = [missed, late]
       \<and> gr_responseTime missed = None \<and> \<not> gr_responded missed
       \<and> (gr_correct missed \<longleftrightarrow> g_type (gr_trial missed) = Nogo)
       \<and> gr_responseTime late \<noteq> None \<and> gr_responded late
       \<and> (gr_correct late \<longleftrightarrow> g_type (gr_trial late) = Go))"
  using gng_recorded_results_consistent
    [of "\<lparr>gr_trial = generateTrials (\<lambda>k. Draw (1 / 2)) ! 0, gr_responded = False,
           gr_correct = (g_type (generateTrials (\<lambda>k. Draw (1 / 2)) ! 0) = Nogo),
           gr_responseTime = None\<rparr>"
        "[G_StartGame (\<lambda>k. Draw (1 / 2)), G_Render, G_CountdownEffect, G_Render,
          G_CountdownEffect, G_Render, G_CountdownEffect, G_Render, G_CountdownEffect,
          G_Render, G_FixationTimer 1000, G_Render, G_StimulusTimeout, G_Response 2003,
          G_Render]"]
  by (simp add: gng_run_def gng_session_initial_def gng_initial_def gng_startGame_def
      gng_countdownEffect_closure_def gng_fixationTimer_closure_def
      gng_stimulusTimeout_closure_def gng_handleResponse_closure_def
      js_index_generateTrials_0 Let_def)

subsection \<open>N-Back: targets\<close>

lemma draw_letter_stop:
  "\<not> (has_prev \<and> Some (LETTERS ! nat \<lfloor>draw_value (rnd k) * real (length LETTERS)\<rfloor>) = prev) \<Longrightarrow>
   draw_letter rnd k has_prev prev
   = Some (LETTERS ! nat \<lfloor>draw_value (rnd k) * real (length LETTERS)\<rfloor>, k + 1)"
  by (subst draw_letter.simps) (auto simp: Let_def)

lemma draw_letter_again:
  "has_prev \<and> Some (LETTERS ! nat \<lfloor>draw_value (rnd k) * real (length LETTERS)\<rfloor>) = prev \<Longrightarrow>
   draw_letter rnd k has_prev prev = draw_letter rnd (k + 1) has_prev prev"
  by (subst draw_letter.simps) (simp add: Let_def)

lemma nback_targetCount: "nat \<lfloor>real NBACK_TOTAL_TRIALS * TARGET_RATIO\<rfloor> = 7"
  by (simp add: NBACK_TOTAL_TRIALS_def TARGET_RATIO_def)

lemma generate_loop_unfold:
  "0 < m \<Longrightarrow> generate_loop n rnd m i k seq c =
     (let drawn = (i \<ge> n \<and> c < 7);
          k1 = (if drawn then k + 1 else k)
      in if drawn \<and> draw_value (rnd k) < 0.4
         then generate_loop n rnd (m - 1) (i + 1) k1 (seq @ [js_index_u seq (i - n)]) (c + 1)
         else (case draw_letter rnd k1 (i \<ge> n) (js_index_u seq (i - n)) of
                 None \<Rightarrow> None
               | Some (letter, k2) \<Rightarrow>
                   generate_loop n rnd (m - 1) (i + 1) k2 (seq @ [Some letter]) c))"
  by (cases m) (auto simp: nback_targetCount Let_def split: option.splits)

lemma generate_loop_length:
  "generate_loop n rnd m i k seq c = Some (seq', c') \<Longrightarrow> length seq' = length seq + m"
proof (induction m arbitrary: i k seq c)
  case 0
  then show ?case by simp
next
  case (Suc m)
  show ?case
  proof (cases "(i \<ge> n \<and> c < nat \<lfloor>real NBACK_TOTAL_TRIALS * TARGET_RATIO\<rfloor>)
                \<and> draw_value (rnd k) < 0.4")
    case True
    with Suc.prems Suc.IH [of "i + 1" "k + 1" "seq @ [js_index_u seq (i - n)]" "c + 1"]
    show ?thesis by (simp add: Let_def)
  next
    case False
    with Suc.prems obtain letter k2 where
      "generate_loop n rnd m (i + 1) k2 (seq @ [Some letter]) c = Some (seq', c')"
      by (auto simp: Let_def split: option.splits if_splits)
    from Suc.IH [OF this] show ?thesis by simp
  qed
qed

lemma letter_index: "nat \<lfloor>draw_value r * real (length LETTERS)\<rfloor> < length LETTERS"
proof -
  have "length LETTERS = Suc 19" by (simp add: LETTERS_def)
  with draw_index_le [of r 19] show ?thesis by simp
qed

lemma draw_letter_fresh:
  "draw_letter rnd k False prev
   = Some (LETTERS ! nat \<lfloor>draw_value (rnd k) * real (length LETTERS)\<rfloor>, k + 1)"
  by (rule draw_letter_stop) simp

lemma generate_loop_prefix:
  assumes "generate_loop n rnd m i k seq c = Some (seq', c')" and "i = length seq"
    and "\<forall>j < length seq. j < n \<longrightarrow> seq ! j \<in> Some ` set LETTERS"
  shows "\<forall>j < length seq'. j < n \<longrightarrow> seq' ! j \<in> Some ` set LETTERS"
  using assms
proof (induction m arbitrary: i k seq c)
  case 0
  then show ?case by simp
next
  case (Suc m)
  show ?case
  proof (cases "i < n")
    case True
    let ?l = "LETTERS ! nat \<lfloor>draw_value (rnd k) * real (length LETTERS)\<rfloor>"
    have l: "?l \<in> set LETTERS" using letter_index by simp
    from Suc.prems(1) True
    have step: "generate_loop n rnd m (i + 1) (k + 1) (seq @ [Some ?l]) c = Some (seq', c')"
      by (simp add: Let_def draw_letter_fresh)
    have "\<forall>j < length (seq @ [Some ?l]). j < n \<longrightarrow> (seq @ [Some ?l]) ! j \<in> Some ` set LETTERS"
      using Suc.prems(3) l by (auto simp: nth_append less_Suc_eq)
    with Suc.IH [OF step] Suc.prems(2) show ?thesis by simp
  next
    case False
    have keep: "\<forall>j < length (seq @ [x]). j < n \<longrightarrow> (seq @ [x]) ! j \<in> Some ` set LETTERS" for x
      using Suc.prems(2,3) False by (auto simp: nth_append less_Suc_eq)
    from Suc.prems(1) obtain x k' c'' where
      "generate_loop n rnd m (i + 1) k' (seq @ [x]) c'' = Some (seq', c')"
      by (auto simp: Let_def split: if_splits option.splits)
    from Suc.IH [OF this _ keep] Suc.prems(2) show ?thesis by simp
  qed
qed

lemma generateSequence_prefix:
  assumes "generateSequence n rnd = Some seq" and "i < n" and "i < NBACK_TOTAL_TRIALS"
  shows "js_index_u seq i \<in> Some ` set LETTERS"
proof -
  from assms(1) obtain c' where g: "generate_loop n rnd NBACK_TOTAL_TRIALS 0 0 [] 0 = Some (seq, c')"
    by (auto simp: generateSequence_def)
  from generate_loop_length [OF g] have len: "length seq = NBACK_TOTAL_TRIALS" by simp
  from generate_loop_prefix [OF g] have "\<forall>j < length seq. j < n \<longrightarrow> seq ! j \<in> Some ` set LETTERS"
    by simp
  with assms(2,3) len show ?thesis by (simp add: js_index_u_def)
qed

text \<open>The sample stream: its values, its letters, and the sequence it generates.\<close>

lemma sample_value: "draw_value (sample_draws k) = real (k mod 5) / 5"
  unfolding sample_draws_def by (rule Draw_inverse) simp

lemma sample_letter:
  "LETTERS ! nat \<lfloor>draw_value (sample_draws k) * real (length LETTERS)\<rfloor>
   = [''B'', ''G'', ''L'', ''Q'', ''V''] ! (k mod 5)"
proof -
  have "k mod 5 < 5" by simp
  then consider "k mod 5 = 0" | "k mod 5 = 1" | "k mod 5 = 2" | "k mod 5 = 3" | "k mod 5 = 4"
    by linarith
  then show ?thesis
    by cases (simp_all add: sample_value LETTERS_def)
qed

lemma sample_draw_letter:
  "draw_letter sample_draws k has_prev prev =
     (if has_prev \<and> Some ([''B'', ''G'', ''L'', ''Q'', ''V''] ! (k mod 5)) = prev
      then Some ([''B'', ''G'', ''L'', ''Q'', ''V''] ! ((k + 1) mod 5), k + 2)
      else Some ([''B'', ''G'', ''L'', ''Q'', ''V''] ! (k mod 5), k + 1))"
proof (cases "has_prev \<and> Some ([''B'', ''G'', ''L'', ''Q'', ''V''] ! (k mod 5)) = prev")
  case False
  then show ?thesis
    using draw_letter_stop [of has_prev sample_draws k prev] by (simp add: sample_letter)
next
  case True
  have "k mod 5 < 5" by simp
  then consider "k mod 5 = 0" | "k mod 5 = 1" | "k mod 5 = 2" | "k mod 5 = 3" | "k mod 5 = 4"
    by linarith
  then have ne: "[''B'', ''G'', ''L'', ''Q'', ''V''] ! ((k + 1) mod 5)
                 \<noteq> [''B'', ''G'', ''L'', ''Q'', ''V''] ! (k mod 5)"
    by cases (simp_all add: mod_Suc)
  have "draw_letter sample_draws k has_prev prev = draw_letter sample_draws (k + 1) has_prev prev"
    using True draw_letter_again [of has_prev sample_draws k prev] by (simp add: sample_letter)
  also have "\<dots> = Some ([''B'', ''G'', ''L'', ''Q'', ''V''] ! ((k + 1) mod 5), k + 1 + 1)"
    using True ne draw_letter_stop [of has_prev sample_draws "k + 1" prev]
    by (auto simp: sample_letter)
  finally show ?thesis using True by simp
qed

lemma sample_sequence:
  "generateSequence 2 sample_draws =
     Some [Some ''B'', Some ''G'', Some ''Q'', Some ''B'', Some ''Q'',
           Some ''Q'', Some ''B'', Some ''Q'', Some ''Q'', Some ''B'',
           Some ''Q'', Some ''Q'', Some ''B'', Some ''Q'', Some ''Q'',
           Some ''B'', Some ''Q'', Some ''Q'', Some ''B'', Some ''Q'',
           Some ''Q'', Some ''B'', Some ''Q'', Some ''L'', Some ''V'']"
  unfolding generateSequence_def NBACK_TOTAL_TRIALS_def
  by (simp add: generate_loop_unfold sample_value sample_draw_letter js_index_u_def
      del: One_nat_def generate_loop.simps(2))

text \<open>
  C5.  In a sequence the generator produces for level \<open>n\<close>, no position below \<open>n\<close> is a
  target.  A position is a target only when it is at least \<open>n\<close> and holds the letter
  found \<open>n\<close> positions before it.  In an iteration for a position below \<open>n\<close> the
  generator never copies a letter: it makes no target draw, appends a freshly drawn
  letter under no constraint, and leaves its count of targets as it is; so every
  position below \<open>n\<close> of a generated sequence holds a letter drawn from \<open>LETTERS\<close>.
\<close>

theorem nback_no_target_before_n:
  "(generateSequence n rnd = Some seq \<and> i < n
      \<longrightarrow> \<not> isTarget n seq i \<and> length seq = NBACK_TOTAL_TRIALS)
   \<and> (generateSequence n rnd = Some seq \<and> i < n \<and> i < NBACK_TOTAL_TRIALS
      \<longrightarrow> js_index_u seq i \<in> Some ` set LETTERS)
   \<and> (isTarget n seq' j \<longrightarrow> n \<le> j \<and> js_index_u seq' j = js_index_u seq' (j - n))
   \<and> (i < n \<longrightarrow>
        generate_loop n rnd (Suc m) i k s c =
          (case draw_letter rnd k False (js_index_u s (i - n)) of
             None \<Rightarrow> None
           | Some (letter, k2) \<Rightarrow> generate_loop n rnd m (i + 1) k2 (s @ [Some letter]) c))"
proof -
  have len: "length seq = NBACK_TOTAL_TRIALS" if "generateSequence n rnd = Some seq"
  proof -
    from that obtain c' where "generate_loop n rnd NBACK_TOTAL_TRIALS 0 0 [] 0 = Some (seq, c')"
      by (auto simp: generateSequence_def)
    from generate_loop_length [OF this] show ?thesis by simp
  qed
  have "i < n \<longrightarrow> \<not> isTarget n seq i"
    by (simp add: isTarget_def)
  moreover have "isTarget n seq' j \<longrightarrow> n \<le> j \<and> js_index_u seq' j = js_index_u seq' (j - n)"
    by (simp add: isTarget_def)
  moreover have "i < n \<longrightarrow>
        generate_loop n rnd (Suc m) i k s c =
          (case draw_letter rnd k False (js_index_u s (i - n)) of
             None \<Rightarrow> None
           | Some (letter, k2) \<Rightarrow> generate_loop n rnd m (i + 1) k2 (s @ [Some letter]) c)"
    by (simp add: Let_def)
  ultimately show ?thesis using len generateSequence_prefix [of n rnd seq i] by blast
qed

theorem nback_no_target_before_n_witness:
  "(let seq = [Some ''B'', Some ''G'', Some ''Q'', Some ''B'', Some ''Q'',
               Some ''Q'', Some ''B'', Some ''Q'', Some ''Q'', Some ''B'',
               Some ''Q'', Some ''Q'', Some ''B'', Some ''Q'', Some ''Q'',
               Some ''B'', Some ''Q'', Some ''Q'', Some ''B'', Some ''Q'',
               Some ''Q'', Some ''B'', Some ''Q'', Some ''L'', Some ''V'']
    in generateSequence 2 sample_draws = Some seq \<and> (1 :: nat) < 2
       \<and> \<not> isTarget 2 seq 1 \<and> length seq = NBACK_TOTAL_TRIALS
       \<and> js_index_u seq 1 = Some ''G'' \<and> ''G'' \<in> set LETTERS
       \<and> isTarget 2 seq 4 \<and> js_index_u seq 4 = js_index_u seq 2)"
  using nback_no_target_before_n
    [of 2 sample_draws
        "[Some ''B'', Some ''G'', Some ''Q'', Some ''B'', Some ''Q'',
          Some ''Q'', Some ''B'', Some ''Q'', Some ''Q'', Some ''B'',
          Some ''Q'', Some ''Q'', Some ''B'', Some ''Q'', Some ''Q'',
          Some ''B'', Some ''Q'', Some ''Q'', Some ''B'', Some ''Q'',
          Some ''Q'', Some ''B'', Some ''Q'', Some ''L'', Some ''V'']" 1
        "[Some ''B'', Some ''G'', Some ''Q'', Some ''B'', Some ''Q'',
          Some ''Q'', Some ''B'', Some ''Q'', Some ''Q'', Some ''B'',
          Some ''Q'', Some ''Q'', Some ''B'', Some ''Q'', Some ''Q'',
          Some ''B'', Some ''Q'', Some ''Q'', Some ''B'', Some ''Q'',
          Some ''Q'', Some ''B'', Some ''Q'', Some ''L'', Some ''V'']" 4]
    sample_sequence
  by (simp add: isTarget_def js_index_u_def NBACK_TOTAL_TRIALS_def LETTERS_def)

subsection \<open>Tower of Hanoi: the lower bound on the puzzle\<close>

lemma path_append: "path c (xs @ ys) c' \<longleftrightarrow> (\<exists>m. path c xs m \<and> path m ys c')"
  by (induction xs arbitrary: c) auto

lemma path_unmoved: "path c ms c' \<Longrightarrow> \<forall>m \<in> set ms. fst m \<noteq> d \<Longrightarrow> c' d = c d"
  by (induction ms arbitrary: c) auto

lemma path_pegs: "path c ms c' \<Longrightarrow> c d < 3 \<Longrightarrow> c' d < 3"
  by (induction ms arbitrary: c) (auto simp: legal_def)

lemma third_peg:
  fixes x a q :: nat
  assumes "x < 3" "a < 3" "q < 3" "x \<noteq> a" "x \<noteq> q" "a \<noteq> q"
  shows "x = 3 - a - q"
  using assms by auto

lemma small_moves_append [simp]: "small_moves n (xs @ ys) = small_moves n xs + small_moves n ys"
  by (simp add: small_moves_def)

lemma small_moves_mono: "small_moves n ms \<le> small_moves (Suc n) ms"
  unfolding small_moves_def
  by (induction ms) auto

lemma small_moves_Cons_big [simp]: "small_moves (Suc n) ((Suc n, q) # ms) = Suc (small_moves (Suc n) ms)"
  by (simp add: small_moves_def)

lemma hanoi_lower_bound:
  "path c ms c' \<Longrightarrow> (\<forall>d. 1 \<le> d \<and> d \<le> n \<longrightarrow> c d = a) \<Longrightarrow> (\<forall>d. 1 \<le> d \<and> d \<le> n \<longrightarrow> c' d = b) \<Longrightarrow>
   a < 3 \<Longrightarrow> b < 3 \<Longrightarrow> a \<noteq> b \<Longrightarrow> 2 ^ n - 1 \<le> small_moves n ms"
proof (induction n arbitrary: c ms c' a b)
  case 0
  then show ?case by simp
next
  case (Suc n)
  let ?D = "Suc n"
  have cD: "c ?D = a" and c'D: "c' ?D = b" using Suc.prems by auto
  have "\<exists>m \<in> set ms. fst m = ?D"
  proof (rule ccontr)
    assume "\<not> ?thesis"
    then have "\<forall>m \<in> set ms. fst m \<noteq> ?D" by blast
    from path_unmoved [OF Suc.prems(1) this] cD c'D Suc.prems(6) show False by simp
  qed
  then obtain pre m1 rest where ms: "ms = pre @ m1 # rest" and m1: "fst m1 = ?D"
    and pre: "\<forall>m \<in> set pre. fst m \<noteq> ?D"
    using split_list_first_prop [of ms "\<lambda>m. fst m = ?D"] by blast
  obtain q1 where m1q: "m1 = (?D, q1)" using m1 by (cases m1) auto
  from Suc.prems(1) ms obtain s1 where p1: "path c pre s1" and l1: "legal s1 ?D q1"
    and p2: "path (s1(?D := q1)) rest c'"
    by (auto simp: path_append m1q)
  have s1D: "s1 ?D = a" using path_unmoved [OF p1 pre] cD by simp
  have q1: "q1 < 3" "q1 \<noteq> a" using l1 s1D by (auto simp: legal_def)
  let ?e1 = "3 - a - q1"
  have s1small: "s1 d = ?e1" if "1 \<le> d" "d \<le> n" for d
  proof -
    have "c d < 3" using that Suc.prems(2,4) by auto
    then have "s1 d < 3" using path_pegs [OF p1] by blast
    moreover have "s1 d \<noteq> a" "s1 d \<noteq> q1" using l1 that s1D by (auto simp: legal_def)
    ultimately show ?thesis using third_peg [of "s1 d" a q1] q1 Suc.prems(4) by blast
  qed
  have e1: "?e1 < 3" "?e1 \<noteq> a" "?e1 \<noteq> q1" using q1 Suc.prems(4) by arith+
  have pre_bound: "2 ^ n - 1 \<le> small_moves n pre"
    using Suc.IH [OF p1, of a ?e1] Suc.prems(2,4) s1small e1 by auto
  have rest_bound: "2 ^ n - 1 \<le> small_moves (Suc n) rest"
  proof (cases "\<exists>m \<in> set rest. fst m = ?D")
    case False
    then have nomove: "\<forall>m \<in> set rest. fst m \<noteq> ?D" by blast
    from path_unmoved [OF p2 nomove] c'D have "q1 = b" by simp
    have "2 ^ n - 1 \<le> small_moves n rest"
      using Suc.IH [OF p2, of ?e1 b] s1small Suc.prems(3,5) e1 \<open>q1 = b\<close> by auto
    then show ?thesis using small_moves_mono [of n rest] by linarith
  next
    case True
    then obtain mid m2 post where rest: "rest = mid @ m2 # post" and m2: "fst m2 = ?D"
      and post: "\<forall>m \<in> set post. fst m \<noteq> ?D"
      using split_list_last_prop [of rest "\<lambda>m. fst m = ?D"] by blast
    obtain q2 where m2q: "m2 = (?D, q2)" using m2 by (cases m2) auto
    from p2 rest obtain s3 where p3: "path (s1(?D := q1)) mid s3" and l3: "legal s3 ?D q2"
      and p4: "path (s3(?D := q2)) post c'"
      by (auto simp: path_append m2q)
    from path_unmoved [OF p4 post] c'D have "q2 = b" by simp
    let ?e3 = "3 - s3 ?D - b"
    have s3D: "s3 ?D < 3" using path_pegs [OF p3, of ?D] q1 by simp
    have s3Db: "s3 ?D \<noteq> b" using l3 \<open>q2 = b\<close> by (simp add: legal_def)
    have s3small: "s3 d = ?e3" if "1 \<le> d" "d \<le> n" for d
    proof -
      have "(s1(?D := q1)) d < 3" using that s1small [OF that] e1 by simp
      then have "s3 d < 3" using path_pegs [OF p3] by blast
      moreover have "s3 d \<noteq> s3 ?D" "s3 d \<noteq> b" using l3 that \<open>q2 = b\<close> by (auto simp: legal_def)
      ultimately show ?thesis using third_peg [of "s3 d" "s3 ?D" b] s3D s3Db Suc.prems(5) by blast
    qed
    have e3: "?e3 < 3" "?e3 \<noteq> b" using s3D s3Db Suc.prems(5) by arith+
    have "2 ^ n - 1 \<le> small_moves n post"
      using Suc.IH [OF p4, of ?e3 b] s3small Suc.prems(3,5) e3 by auto
    then have "2 ^ n - 1 \<le> small_moves (Suc n) post"
      using small_moves_mono [of n post] by linarith
    then show ?thesis by (simp add: rest m2q)
  qed
  have "small_moves (Suc n) ms = small_moves (Suc n) pre + Suc (small_moves (Suc n) rest)"
    by (simp add: ms m1q)
  moreover have "2 ^ n - 1 \<le> small_moves (Suc n) pre"
    using pre_bound small_moves_mono [of n pre] by linarith
  moreover have "(2::nat) ^ Suc n - 1 = (2 ^ n - 1) + Suc (2 ^ n - 1)" by simp
  ultimately show ?case using rest_bound by linarith
qed

subsection \<open>Tower of Hanoi: towers under a move\<close>

lemma towers3: "length (tws :: 'a list) = 3 \<Longrightarrow> \<exists>t0 t1 t2. tws = [t0, t1, t2]"
  by (auto simp: length_Suc_conv eval_nat_numeral)

lemma sizes_initialDisks: "map disk_size (initialDisks n) = rev [1..<Suc n]"
  by (induction n) simp_all

lemma decreasing_butlast:
  "sorted_wrt (>) (map disk_size src) \<Longrightarrow> sorted_wrt (>) (map disk_size (butlast src))"
  by (cases src rule: rev_cases) (simp_all add: sorted_wrt_append)

lemma decreasing_above_last:
  assumes "sorted_wrt (>) (map disk_size tw)" and "tw \<noteq> []" and "x \<in> set tw"
  shows "disk_size (last tw) \<le> disk_size x"
  using assms by (cases tw rule: rev_cases) (auto simp: sorted_wrt_append less_imp_le)

lemma decreasing_snoc:
  assumes "sorted_wrt (>) (map disk_size tgt)"
    and "tgt = [] \<or> disk_size d < disk_size (last tgt)"
  shows "sorted_wrt (>) (map disk_size (tgt @ [d]))"
proof (cases "tgt = []")
  case True
  then show ?thesis by simp
next
  case False
  with assms(2) have lt: "disk_size d < disk_size (last tgt)" by simp
  have "\<forall>x \<in> set tgt. disk_size d < disk_size x"
    using decreasing_above_last [OF assms(1) False] lt by fastforce
  with assms(1) show ?thesis by (auto simp: sorted_wrt_append)
qed

lemma mset_butlast_last:
  "src \<noteq> [] \<Longrightarrow> mset (map f (butlast src)) + {#f (last src)#} = mset (map f src)"
  by (cases src rule: rev_cases) simp_all

lemma last_facts:
  assumes "sorted_wrt (>) (map disk_size src)" and "distinct (map disk_size src)" and "src \<noteq> []"
  shows "disk_size (last src) \<in> disk_size ` set src"
    and "disk_size (last src) \<notin> disk_size ` set (butlast src)"
    and "disk_size ` set (butlast src) = disk_size ` set src - {disk_size (last src)}"
    and "\<forall>x \<in> disk_size ` set src. disk_size (last src) \<le> x"
proof -
  show "disk_size (last src) \<in> disk_size ` set src" using assms(3) by simp
  show 2: "disk_size (last src) \<notin> disk_size ` set (butlast src)"
    using assms(2,3) by (cases src rule: rev_cases) auto
  show "disk_size ` set (butlast src) = disk_size ` set src - {disk_size (last src)}"
    using 2 assms(3) by (cases src rule: rev_cases) auto
  show "\<forall>x \<in> disk_size ` set src. disk_size (last src) \<le> x"
    using decreasing_above_last [OF assms(1,3)] by auto
qed

lemma target_facts:
  assumes "sorted_wrt (>) (map disk_size tgt)"
    and "tgt = [] \<or> d < disk_size (last tgt)"
  shows "\<forall>x \<in> disk_size ` set tgt. d < x"
proof (cases "tgt = []")
  case True
  then show ?thesis by simp
next
  case False
  with assms(2) have "d < disk_size (last tgt)" by simp
  with decreasing_above_last [OF assms(1) False] show ?thesis by fastforce
qed

lemma tower_of_eqI:
  assumes "i < 3" and "x \<in> disk_size ` set (tws ! i)"
    and "\<And>j. j < 3 \<Longrightarrow> j \<noteq> i \<Longrightarrow> x \<notin> disk_size ` set (tws ! j)"
  shows "tower_of tws x = i"
proof -
  from assms(1) consider "i = 0" | "i = 1" | "i = 2" by linarith
  then show ?thesis
  proof cases
    case 1
    with assms(2) show ?thesis by (simp add: tower_of_def)
  next
    case 2
    with assms(2) assms(3) [of 0] show ?thesis by (simp add: tower_of_def)
  next
    case 3
    with assms(2) assms(3) [of 0] assms(3) [of 1] show ?thesis by (simp add: tower_of_def)
  qed
qed

lemma tower_of_cong:
  assumes "\<And>i. i < 3 \<Longrightarrow> x \<in> disk_size ` set (tws' ! i) \<longleftrightarrow> x \<in> disk_size ` set (tws ! i)"
  shows "tower_of tws' x = tower_of tws x"
  using assms [of 0] assms [of 1] assms [of 2] by (simp add: tower_of_def)

lemma hanoi_move:
  assumes tws: "tws = [t0, t1, t2]"
    and sorted: "\<forall>tw \<in> set tws. sorted_wrt (>) (map disk_size tw)"
    and dist: "distinct (map disk_size (concat tws))"
    and sel: "sel < 3" and idx: "idx < 3" and ne: "sel \<noteq> idx" and src: "tws ! sel \<noteq> []"
    and ok: "tws ! idx = [] \<or> disk_size (last (tws ! sel)) < disk_size (last (tws ! idx))"
  shows "legal (tower_of tws) (disk_size (last (tws ! sel))) idx"
    and "tower_of (tws[sel := butlast (tws ! sel), idx := tws ! idx @ [last (tws ! sel)]])
         = (tower_of tws)(disk_size (last (tws ! sel)) := idx)"
proof -
  let ?d = "disk_size (last (tws ! sel))"
  let ?S = "\<lambda>i. disk_size ` set (tws ! i)"
  have seld: "sel \<in> {0, 1, 2}" "idx \<in> {0, 1, 2}" using sel idx by auto
  have sorted_i: "sorted_wrt (>) (map disk_size (tws ! i))" if "i < 3" for i
    using sorted that tws by (auto simp: less_Suc_eq eval_nat_numeral)
  have dist_i: "distinct (map disk_size (tws ! i))" if "i < 3" for i
    using dist that tws by (auto simp: less_Suc_eq eval_nat_numeral)
  have disj: "?S i \<inter> ?S j = {}" if "i < 3" "j < 3" "i \<noteq> j" for i j
    using dist that tws by (auto simp: less_Suc_eq eval_nat_numeral; blast)
  note lf = last_facts [OF sorted_i [OF sel] dist_i [OF sel] src]
  note tf = target_facts [OF sorted_i [OF idx] ok]
  have where_S: "tower_of tws x = i \<longleftrightarrow> x \<in> ?S i" if "i < 3" for i x
    using that disj [of 0 1] disj [of 0 2] disj [of 1 2]
    by (auto simp: tower_of_def less_Suc_eq eval_nat_numeral)
  have d_sel: "tower_of tws ?d = sel" using where_S [OF sel] lf(1) by simp
  show "legal (tower_of tws) ?d idx"
    unfolding legal_def d_sel
  proof (intro conjI allI impI)
    show "idx < 3" by (rule idx)
    show "sel \<noteq> idx" by (rule ne)
    fix e assume e: "1 \<le> e \<and> e < ?d"
    show "tower_of tws e \<noteq> sel" using where_S [OF sel, of e] lf(4) e by auto
    show "tower_of tws e \<noteq> idx" using where_S [OF idx, of e] tf e by auto
  qed
  let ?tws' = "tws[sel := butlast (tws ! sel), idx := tws ! idx @ [last (tws ! sel)]]"
  let ?S' = "\<lambda>i. disk_size ` set (?tws' ! i)"
  have len: "length tws = 3" using tws by simp
  have S'_sel: "?S' sel = ?S sel - {?d}" using lf(3) sel ne len by simp
  have S'_idx: "?S' idx = insert ?d (?S idx)" using idx len by simp
  have S'_other: "?S' i = ?S i" if "i \<noteq> sel" "i \<noteq> idx" for i using that by simp
  have d_not: "?d \<notin> ?S i" if "i < 3" "i \<noteq> sel" for i
    using disj [OF that(1) sel that(2)] lf(1) by auto
  show "tower_of ?tws' = (tower_of tws)(?d := idx)"
  proof
    fix x
    show "tower_of ?tws' x = ((tower_of tws)(?d := idx)) x"
    proof (cases "x = ?d")
      case True
      have "x \<in> ?S' idx" using S'_idx True by simp
      moreover have "x \<notin> ?S' i" if "i < 3" "i \<noteq> idx" for i
      proof (cases "i = sel")
        case True
        then show ?thesis using S'_sel \<open>x = ?d\<close> by simp
      next
        case False
        then show ?thesis using S'_other [OF False that(2)] d_not [OF that(1) False] \<open>x = ?d\<close> by simp
      qed
      ultimately have "tower_of ?tws' x = idx"
        using idx by (intro tower_of_eqI) blast+
      then show ?thesis using True by simp
    next
      case False
      have "x \<in> ?S' i \<longleftrightarrow> x \<in> ?S i" if "i < 3" for i
        using S'_sel S'_idx S'_other [of i] False by (cases "i = sel"; cases "i = idx"; auto)
      then have "tower_of ?tws' x = tower_of tws x"
        by (rule tower_of_cong)
      then show ?thesis using False by simp
    qed
  qed
qed

lemma mset_move:
  assumes tws: "tws = [t0, t1, t2]" and "sel < 3" "idx < 3" "sel \<noteq> idx" "tws ! sel \<noteq> []"
  shows "mset (map f (concat (tws[sel := butlast (tws ! sel), idx := tws ! idx @ [last (tws ! sel)]])))
         = mset (map f (concat tws))"
proof -
  from assms(2,3) have "sel \<in> {0, 1, 2}" "idx \<in> {0, 1, 2}" by auto
  then show ?thesis
    using assms(4,5) mset_butlast_last [of "tws ! sel" f] unfolding tws
    by (elim insertE emptyE) (simp_all add: union_commute union_lcomm)
qed

lemma all_towers_update:
  assumes "\<forall>tw \<in> set tws. P tw" and "P a" and "P b"
  shows "\<forall>tw \<in> set (tws[i := a, j := b]). P tw"
proof
  fix tw assume "tw \<in> set (tws[i := a, j := b])"
  then have "tw = b \<or> tw \<in> set (tws[i := a])"
    using set_update_subset_insert [of "tws[i := a]" j b] by auto
  then have "tw = b \<or> tw = a \<or> tw \<in> set tws"
    using set_update_subset_insert [of tws i a] by auto
  with assms show "P tw" by auto
qed

lemma hanoi_inv_distinct:
  "hanoi_inv n s \<Longrightarrow> distinct (map disk_size (concat (towers s)))"
proof -
  assume "hanoi_inv n s"
  then have "mset (map disk_size (concat (towers s))) = mset [1..<Suc n]"
    by (simp add: hanoi_inv_def)
  from mset_eq_imp_distinct_iff [OF this] show ?thesis by simp
qed

lemma hanoi_click_step:
  assumes inv: "hanoi_inv n s"
  shows "hanoi_inv n (hanoi_click s c)
    \<and> ((towers (hanoi_click s c) = towers s \<and> moves (hanoi_click s c) = moves s)
       \<or> (\<exists>d q. legal (tower_of (towers s)) d q
              \<and> tower_of (towers (hanoi_click s c)) = (tower_of (towers s))(d := q)
              \<and> moves (hanoi_click s c) = Suc (moves s)))"
proof -
  obtain idx now where c: "c = (idx, now)" by (cases c)
  from inv have len: "length (towers s) = 3" by (simp add: hanoi_inv_def)
  then obtain t0 t1 t2 where tws: "towers s = [t0, t1, t2]" using towers3 by blast
  show ?thesis
  proof (cases "h_phase s \<noteq> H_playing")
    case True
    then show ?thesis using inv by (simp add: hanoi_click_def handleTowerClick_def c)
  next
    case playing: False
    show ?thesis
    proof (cases "selectedTower s")
      case None
      then show ?thesis
        using inv playing len
        by (auto simp: hanoi_click_def handleTowerClick_def c js_index_def hanoi_inv_def)
    next
      case (Some sel)
      with inv have sel: "sel < 3" and src: "towers s ! sel \<noteq> []"
        by (simp_all add: hanoi_inv_def)
      show ?thesis
      proof (cases "sel = idx \<or> \<not> idx < 3")
        case True
        then show ?thesis
          using inv playing len Some sel
          by (auto simp: hanoi_click_def handleTowerClick_def c js_index_def hanoi_inv_def)
      next
        case False
        then have ne: "sel \<noteq> idx" and idx: "idx < 3" by simp_all
        let ?src = "towers s ! sel"
        let ?tgt = "towers s ! idx"
        show ?thesis
        proof (cases "length ?tgt = 0 \<or> disk_size (last ?src) < disk_size (last ?tgt)")
          case invalid: False
          then show ?thesis
            using inv playing len Some sel idx ne src
            by (auto simp: hanoi_click_def handleTowerClick_def c js_index_def hanoi_inv_def)
        next
          case valid: True
          let ?new = "(towers s)[sel := butlast ?src, idx := ?tgt @ [last ?src]]"
          let ?s' = "hanoi_click s c"
          have ok: "?tgt = [] \<or> disk_size (last ?src) < disk_size (last ?tgt)"
            using valid by simp
          have tw': "towers ?s' = ?new" and mv': "moves ?s' = Suc (moves s)"
            and sel': "selectedTower ?s' = None" and nd': "numDisks ?s' = numDisks s"
            and mm': "minMoves ?s' = minMoves s"
            and ph': "h_phase ?s' = (if length (?new ! 2) = numDisks s then H_results else H_playing)"
            using playing len Some sel idx ne src valid
            by (simp_all add: hanoi_click_def handleTowerClick_def c js_index_def Let_def)
          have sorted: "\<forall>tw \<in> set (towers s). sorted_wrt (>) (map disk_size tw)"
            using inv by (simp add: hanoi_inv_def)
          have sorted_i: "sorted_wrt (>) (map disk_size (towers s ! i))" if "i < 3" for i
            using sorted that len by simp
          have sorted': "\<forall>tw \<in> set ?new. sorted_wrt (>) (map disk_size tw)"
            using sorted decreasing_butlast [OF sorted_i [OF sel]]
              decreasing_snoc [OF sorted_i [OF idx] ok]
            by (rule all_towers_update)
          have mset': "mset (map disk_size (concat ?new)) = mset [1..<Suc n]"
            using mset_move [OF tws sel idx ne src, of disk_size] inv by (simp add: hanoi_inv_def)
          have inv': "hanoi_inv n ?s'"
            using inv sorted' mset' len
            by (simp add: hanoi_inv_def tw' sel' nd' ph' mm')
          note hm = hanoi_move [OF tws sorted hanoi_inv_distinct [OF inv] sel idx ne src ok]
          show ?thesis using inv' hm mv' tw' by auto
        qed
      qed
    qed
  qed
qed

lemma hanoi_start_eq:
  "hanoi_start n now =
     \<lparr>h_phase = H_playing, h_countdown = 0, numDisks = n, towers = initializeTowers n,
      selectedTower = None, moves = 0, startTime = now, completionTime = 0,
      minMoves = 2 ^ n - 1\<rparr>"
  by (simp add: hanoi_start_def hanoi_initial_def setNumDisks_def hanoi_startGame_def
      hanoi_countdownEffect_def)

lemma hanoi_inv_start: "hanoi_inv n (hanoi_start n now)"
  by (simp add: hanoi_start_eq hanoi_inv_def initializeTowers_def sizes_initialDisks
      sorted_wrt_rev del: upt_Suc)

lemma hanoi_clicks_path:
  "hanoi_inv n s \<Longrightarrow>
   hanoi_inv n (hanoi_clicks s cs)
   \<and> (\<exists>ms. path (tower_of (towers s)) ms (tower_of (towers (hanoi_clicks s cs)))
          \<and> moves (hanoi_clicks s cs) = moves s + length ms)"
  unfolding hanoi_clicks_def
proof (induction cs arbitrary: s)
  case Nil
  have "path (tower_of (towers s)) [] (tower_of (towers s))" by simp
  with Nil show ?case by fastforce
next
  case (Cons c cs)
  from hanoi_click_step [OF Cons.prems, of c]
  have inv': "hanoi_inv n (hanoi_click s c)"
    and step: "(towers (hanoi_click s c) = towers s \<and> moves (hanoi_click s c) = moves s)
       \<or> (\<exists>d q. legal (tower_of (towers s)) d q
              \<and> tower_of (towers (hanoi_click s c)) = (tower_of (towers s))(d := q)
              \<and> moves (hanoi_click s c) = Suc (moves s))"
    by blast+
  from Cons.IH [OF inv'] obtain ms where
    inv'': "hanoi_inv n (foldl hanoi_click (hanoi_click s c) cs)"
    and p: "path (tower_of (towers (hanoi_click s c))) ms
              (tower_of (towers (foldl hanoi_click (hanoi_click s c) cs)))"
    and m: "moves (foldl hanoi_click (hanoi_click s c) cs) = moves (hanoi_click s c) + length ms"
    by blast
  from step show ?case
  proof
    assume "towers (hanoi_click s c) = towers s \<and> moves (hanoi_click s c) = moves s"
    with inv'' p m show ?thesis by auto
  next
    assume "\<exists>d q. legal (tower_of (towers s)) d q
              \<and> tower_of (towers (hanoi_click s c)) = (tower_of (towers s))(d := q)
              \<and> moves (hanoi_click s c) = Suc (moves s)"
    then obtain d q where l: "legal (tower_of (towers s)) d q"
      and t: "tower_of (towers (hanoi_click s c)) = (tower_of (towers s))(d := q)"
      and mv: "moves (hanoi_click s c) = Suc (moves s)" by blast
    have "path (tower_of (towers s)) ((d, q) # ms)
            (tower_of (towers (foldl hanoi_click (hanoi_click s c) cs)))"
      using l p t by simp
    moreover have "moves (foldl hanoi_click (hanoi_click s c) cs)
                   = moves s + length ((d, q) # ms)"
      using m mv by simp
    ultimately have "\<exists>ms'. path (tower_of (towers s)) ms'
            (tower_of (towers (foldl hanoi_click (hanoi_click s c) cs)))
          \<and> moves (foldl hanoi_click (hanoi_click s c) cs) = moves s + length ms'"
      by (intro exI [of _ "(d, q) # ms"] conjI)
    with inv'' show ?thesis by simp
  qed
qed

lemma small_moves_le: "small_moves n ms \<le> length ms"
  by (simp add: small_moves_def)

lemma start_config:
  "1 \<le> d \<and> d \<le> n \<Longrightarrow> tower_of (towers (hanoi_start n now)) d = 0"
  by (auto simp: hanoi_start_eq initializeTowers_def tower_of_def sizes_initialDisks
      simp flip: set_map)

lemma won_config:
  assumes inv: "hanoi_inv n s" and won: "length (towers s ! 2) = n" and d: "1 \<le> d \<and> d \<le> n"
  shows "tower_of (towers s) d = 2"
proof -
  from inv have len: "length (towers s) = 3"
    and m: "mset (map disk_size (concat (towers s))) = mset [1..<Suc n]"
    by (simp_all add: hanoi_inv_def)
  from len obtain t0 t1 t2 where tws: "towers s = [t0, t1, t2]" using towers3 by blast
  from mset_eq_length [OF m] have "length t0 + length t1 + length t2 = n"
    by (simp add: tws del: upt_Suc)
  with won tws have e: "t0 = []" "t1 = []" by simp_all
  from mset_eq_setD [OF m] have "disk_size ` set t2 = {1..<Suc n}"
    by (simp add: tws e del: upt_Suc)
  with d have "d \<in> disk_size ` set t2" by auto
  then show ?thesis by (simp add: tower_of_def tws e)
qed


lemma hanoi_click_returns:
  assumes "hanoi_inv n s" and "idx < 3"
  shows "\<exists>s'. handleTowerClick idx now s = Returned s'"
  using assms
  by (auto simp: handleTowerClick_def js_index_def hanoi_inv_def Let_def split: option.splits)


text \<open>
  C9.  In every state reached by tower clicks from the start of a game of \<open>n\<close> disks
  there are three towers, each holds its disks in strictly decreasing size from the
  bottom up, and the sizes on the three towers together are exactly 1, ..., \<open>n\<close>, once
  each.  A click that proposes to put the selected tower's top disk on a smaller disk
  only clears the selection: the towers and the move counter stay as they are.
\<close>

theorem hanoi_towers_invariant:
  "numDisks (hanoi_clicks (hanoi_start n now) cs) = n
   \<and> length (towers (hanoi_clicks (hanoi_start n now) cs)) = 3
   \<and> (\<forall>tower \<in> set (towers (hanoi_clicks (hanoi_start n now) cs)).
         sorted_wrt (>) (map disk_size tower))
   \<and> mset (map disk_size (concat (towers (hanoi_clicks (hanoi_start n now) cs))))
       = mset [1..<Suc n]
   \<and> (h_phase s = H_playing \<and> selectedTower s = Some sel \<and> sel \<noteq> idx
        \<and> js_index (towers s) sel = Some src \<and> js_index (towers s) idx = Some tgt
        \<and> src \<noteq> [] \<and> tgt \<noteq> [] \<and> disk_size (last tgt) < disk_size (last src)
      \<longrightarrow> handleTowerClick idx t s = Returned (s\<lparr>selectedTower := None\<rparr>)
          \<and> towers (hanoi_click s (idx, t)) = towers s
          \<and> moves (hanoi_click s (idx, t)) = moves s)"
proof -
  from hanoi_clicks_path [OF hanoi_inv_start [of n now], of cs]
  have "hanoi_inv n (hanoi_clicks (hanoi_start n now) cs)" by blast
  then have "numDisks (hanoi_clicks (hanoi_start n now) cs) = n
   \<and> length (towers (hanoi_clicks (hanoi_start n now) cs)) = 3
   \<and> (\<forall>tower \<in> set (towers (hanoi_clicks (hanoi_start n now) cs)).
         sorted_wrt (>) (map disk_size tower))
   \<and> mset (map disk_size (concat (towers (hanoi_clicks (hanoi_start n now) cs))))
       = mset [1..<Suc n]"
    by (simp add: hanoi_inv_def)
  moreover have "h_phase s = H_playing \<and> selectedTower s = Some sel \<and> sel \<noteq> idx
        \<and> js_index (towers s) sel = Some src \<and> js_index (towers s) idx = Some tgt
        \<and> src \<noteq> [] \<and> tgt \<noteq> [] \<and> disk_size (last tgt) < disk_size (last src)
      \<longrightarrow> handleTowerClick idx t s = Returned (s\<lparr>selectedTower := None\<rparr>)
          \<and> towers (hanoi_click s (idx, t)) = towers s
          \<and> moves (hanoi_click s (idx, t)) = moves s"
    by (simp add: hanoi_click_def handleTowerClick_def Let_def)
  ultimately show ?thesis by blast
qed


theorem hanoi_towers_invariant_witness:
  "(let d1 = \<lparr>disk_id = 1, disk_size = 1\<rparr>;
        d2 = \<lparr>disk_id = 2, disk_size = 2\<rparr>;
        s = hanoi_clicks (hanoi_start 2 0) [(0, 1), (1, 2), (0, 3)]
    in towers (hanoi_clicks (hanoi_start 2 0) [(0, 1), (1, 2)]) = [[d2], [d1], []]
       \<and> h_phase s = H_playing \<and> selectedTower s = Some 0 \<and> (0 :: nat) \<noteq> 1
       \<and> js_index (towers s) 0 = Some [d2] \<and> js_index (towers s) 1 = Some [d1]
       \<and> disk_size (last [d1]) < disk_size (last [d2])
       \<and> towers (hanoi_click s (1, 4)) = [[d2], [d1], []]
       \<and> moves (hanoi_click s (1, 4)) = 1 \<and> moves s = 1)"
  using hanoi_towers_invariant
    [of 2 0 "[(0, 1), (1, 2)]" "hanoi_clicks (hanoi_start 2 0) [(0, 1), (1, 2), (0, 3)]"
        0 1 "[\<lparr>disk_id = 2, disk_size = 2\<rparr>]" "[\<lparr>disk_id = 1, disk_size = 1\<rparr>]" 4]
  by (simp add: hanoi_clicks_def hanoi_click_def handleTowerClick_def js_index_def
      hanoi_start_eq initializeTowers_def eval_nat_numeral)

text \<open>
  C2.  The minimum shown for a game of \<open>n\<close> disks is \<open>2\<^sup>n - 1\<close>, from the start of the
  game on.  Whatever the clicks, a state in which the goal tower holds all \<open>n\<close> disks
  (the results phase is entered in no other state) has a move counter of at least
  \<open>2\<^sup>n - 1\<close>.
\<close>

theorem hanoi_minimum_moves:
  "minMoves (hanoi_start n now) = 2 ^ n - 1
   \<and> minMoves (hanoi_clicks (hanoi_start n now) cs) = 2 ^ n - 1
   \<and> (length (towers (hanoi_clicks (hanoi_start n now) cs) ! 2) = n
       \<or> h_phase (hanoi_clicks (hanoi_start n now) cs) = H_results
      \<longrightarrow> 2 ^ n - 1 \<le> moves (hanoi_clicks (hanoi_start n now) cs))"
proof -
  let ?start = "hanoi_start n now"
  let ?final = "hanoi_clicks (hanoi_start n now) cs"
  from hanoi_clicks_path [OF hanoi_inv_start [of n now], of cs] obtain ms where
    inv: "hanoi_inv n ?final" and p: "path (tower_of (towers ?start)) ms (tower_of (towers ?final))"
    and m: "moves ?final = moves ?start + length ms" by blast
  have bound: "2 ^ n - 1 \<le> moves ?final" if won: "length (towers ?final ! 2) = n"
  proof -
    have a: "\<forall>d. 1 \<le> d \<and> d \<le> n \<longrightarrow> tower_of (towers ?start) d = 0"
      using start_config by blast
    have b: "\<forall>d. 1 \<le> d \<and> d \<le> n \<longrightarrow> tower_of (towers ?final) d = 2"
      using won_config [OF inv won] by blast
    have "2 ^ n - 1 \<le> small_moves n ms"
      using hanoi_lower_bound [OF p a b] by simp
    also have "\<dots> \<le> length ms" by (rule small_moves_le)
    finally show ?thesis using m by (simp add: hanoi_start_eq)
  qed
  have "h_phase ?final = H_results \<longrightarrow> length (towers ?final ! 2) = n"
    using inv by (simp add: hanoi_inv_def)
  moreover have "minMoves ?final = 2 ^ n - 1" using inv by (simp add: hanoi_inv_def)
  moreover have "minMoves ?start = 2 ^ n - 1" by (simp add: hanoi_start_eq)
  ultimately show ?thesis using bound by blast
qed

theorem hanoi_minimum_moves_witness:
  "(let s = hanoi_clicks (hanoi_start 2 0) [(0, 1), (1, 2), (0, 3), (2, 4), (1, 5), (2, 6)]
    in minMoves (hanoi_start 2 0) = 3 \<and> minMoves s = 3
       \<and> length (towers s ! 2) = 2 \<and> h_phase s = H_results
       \<and> moves s = 3 \<and> (2 :: nat) ^ 2 - 1 \<le> moves s)"
  using hanoi_minimum_moves [of 2 0 "[(0, 1), (1, 2), (0, 3), (2, 4), (1, 5), (2, 6)]"]
  by (simp add: hanoi_clicks_def hanoi_click_def handleTowerClick_def js_index_def
      hanoi_start_eq initializeTowers_def eval_nat_numeral)

subsection \<open>Routing: paths outside the registered routes\<close>

lemma App_no_match:
  "\<forall>r \<in> set routes. \<not> matchPath (fst r) pathname \<Longrightarrow> App matchPath pathname = None"
  by (auto simp: App_def find_None_iff)

lemma GamePage_unknown_id:
  "\<forall>g \<in> set games. Some (gm_id g) \<noteq> gameId \<Longrightarrow> GamePage gameId = Game_Not_Found"
proof -
  assume "\<forall>g \<in> set games. Some (gm_id g) \<noteq> gameId"
  then have "find (\<lambda>g. Some (gm_id g) = gameId) games = None"
    by (simp add: find_None_iff)
  then show ?thesis by (simp add: GamePage_def)
qed

text \<open>
  C8.  The claim does not hold of \<^verbatim>\<open>App\<close>.  For the path \<^verbatim>\<open>/games/chess\<close>, which no
  registered pattern equals, \<^verbatim>\<open>App\<close> renders nothing, while \<^verbatim>\<open>GamePage\<close>, which has the
  "Game Not Found" view for an unknown id, is mounted on no route.
\<close>

theorem app_unregistered_path_renders_nothing:
  "App (\<lambda>pattern pathname. pattern = pathname) ''/games/chess'' = None
   \<and> GamePage (Some ''chess'') = Game_Not_Found"
  by (simp add: App_def routes_def GamePage_def games_def)

subsection \<open>Flanker and Task Switching: what a session records\<close>

lemma length_flanker_generateTrials: "length (flanker_generateTrials rnd) = FLANKER_TOTAL_TRIALS"
  using mset_eq_length [OF mset_shuffle [of rnd 0 "map flanker_trial_at [0..<FLANKER_TOTAL_TRIALS]"]]
  by (simp add: flanker_generateTrials_def)

lemma set_flanker_generateTrials:
  "set (flanker_generateTrials rnd) = flanker_trial_at ` {0..<FLANKER_TOTAL_TRIALS}"
  using mset_eq_setD [OF mset_shuffle [of rnd 0 "map flanker_trial_at [0..<FLANKER_TOTAL_TRIALS]"]]
  by (simp add: flanker_generateTrials_def)

lemma flanker_generated_conditions:
  "(\<exists>t \<in> set (flanker_generateTrials rnd). f_type t = Congruent)
   \<and> (\<exists>t \<in> set (flanker_generateTrials rnd). f_type t = Incongruent)"
proof -
  have "f_type (flanker_trial_at 0) = Congruent" "f_type (flanker_trial_at 2) = Incongruent"
    by (simp_all add: flanker_trial_at_def)
  moreover have "(0::nat) \<in> {0..<FLANKER_TOTAL_TRIALS}" "(2::nat) \<in> {0..<FLANKER_TOTAL_TRIALS}"
    by (simp_all add: FLANKER_TOTAL_TRIALS_def)
  ultimately show ?thesis unfolding set_flanker_generateTrials by blast
qed

lemma flanker_step_inv: "flanker_inv s \<Longrightarrow> flanker_inv (flanker_step s e)"
proof (cases e)
  case (F_Response response now)
  assume inv: "flanker_inv s"
  show ?thesis
  proof (cases "f_phase s = Playing \<and> \<not> f_showFixation s")
    case False
    with inv F_Response show ?thesis by (auto simp: flanker_handleResponse_def)
  next
    case True
    with inv obtain rnd where tr: "f_trials s = flanker_generateTrials rnd"
      and cur: "f_currentTrial s < FLANKER_TOTAL_TRIALS"
      and res: "map fr_trial (f_results s) = take (f_currentTrial s) (f_trials s)"
      by (auto simp: flanker_inv_def)
    have len: "f_currentTrial s < length (f_trials s)"
      using cur tr by (simp add: length_flanker_generateTrials)
    show ?thesis
      using True F_Response tr cur res len
      by (auto simp: flanker_handleResponse_def js_index_def flanker_inv_def Let_def
          take_Suc_conv_app_nth)
  qed
next
  case F_FeedbackTimer
  assume inv: "flanker_inv s"
  show ?thesis
  proof (cases "f_phase s = Feedback")
    case False
    with inv F_FeedbackTimer show ?thesis by (simp add: flanker_feedbackTimer_def)
  next
    case True
    with inv obtain rnd where tr: "f_trials s = flanker_generateTrials rnd"
      and cur: "f_currentTrial s < FLANKER_TOTAL_TRIALS"
      and res: "map fr_trial (f_results s) = take (Suc (f_currentTrial s)) (f_trials s)"
      by (auto simp: flanker_inv_def)
    have len: "length (f_trials s) = FLANKER_TOTAL_TRIALS"
      using tr by (simp add: length_flanker_generateTrials)
    show ?thesis
      using True F_FeedbackTimer tr cur res len
      by (auto simp: flanker_feedbackTimer_def flanker_inv_def)
  qed
qed (auto simp: flanker_inv_def flanker_startGame_def flanker_countdownEffect_def
      flanker_fixationTimer_def FLANKER_TOTAL_TRIALS_def)

lemma flanker_run_inv: "flanker_inv s \<Longrightarrow> flanker_inv (flanker_run s es)"
  unfolding flanker_run_def
  by (induction es arbitrary: s) (simp_all add: flanker_step_inv)

lemma flanker_inv_initial: "flanker_inv flanker_initial"
  by (simp add: flanker_inv_def flanker_initial_def)

lemma flanker_results_conditions:
  assumes "f_phase (flanker_run flanker_initial es) = Results"
  shows "filter (\<lambda>r. f_type (fr_trial r) = Incongruent) (f_results (flanker_run flanker_initial es)) \<noteq> []"
    and "filter (\<lambda>r. f_type (fr_trial r) = Congruent) (f_results (flanker_run flanker_initial es)) \<noteq> []"
proof -
  let ?final = "flanker_run flanker_initial es"
  have inv: "flanker_inv ?final" using flanker_inv_initial by (rule flanker_run_inv)
  with assms obtain rnd where "map fr_trial (f_results ?final) = flanker_generateTrials rnd"
    by (auto simp: flanker_inv_def)
  then have eq: "set (flanker_generateTrials rnd) = fr_trial ` set (f_results ?final)"
    by (metis set_map)
  from flanker_generated_conditions [of rnd]
  have c: "\<exists>r \<in> set (f_results ?final). f_type (fr_trial r) = Congruent"
    and i: "\<exists>r \<in> set (f_results ?final). f_type (fr_trial r) = Incongruent"
    unfolding eq by blast+
  from i show "filter (\<lambda>r. f_type (fr_trial r) = Incongruent) (f_results ?final) \<noteq> []"
    by (simp add: filter_empty_conv)
  from c show "filter (\<lambda>r. f_type (fr_trial r) = Congruent) (f_results ?final) \<noteq> []"
    by (simp add: filter_empty_conv)
qed

lemma switch_loop_length:
  "length (switch_generate_loop rnd m i k lastTask acc) = length acc + m"
  by (induction m arbitrary: i k lastTask acc) (simp_all add: Let_def)

lemma switch_loop_acc:
  "set acc \<subseteq> set (switch_generate_loop rnd m i k lastTask acc)"
proof (induction m arbitrary: i k lastTask acc)
  case 0
  then show ?case by simp
next
  case (Suc m)
  show ?case
    unfolding switch_generate_loop.simps Let_def
    by (rule subset_trans [OF _ Suc.IH]) auto
qed

lemma switch_loop_has_repeat:
  "\<exists>t \<in> set (switch_generate_loop rnd (Suc m) 0 k lastTask acc). \<not> isSwitch t"
proof -
  let ?t = "\<lparr>t_number = NUMBERS ! nat \<lfloor>draw_value (rnd k) * real (length NUMBERS)\<rfloor>,
             t_letter = (VOWELS @ CONSONANTS) ! nat \<lfloor>draw_value (rnd (k + 1)) * real (length (VOWELS @ CONSONANTS))\<rfloor>,
             task = lastTask, isSwitch = False\<rparr>"
  have "switch_generate_loop rnd (Suc m) 0 k lastTask acc
        = switch_generate_loop rnd m 1 (k + 2) lastTask (acc @ [?t])"
    by (simp add: Let_def)
  moreover have "?t \<in> set (switch_generate_loop rnd m 1 (k + 2) lastTask (acc @ [?t]))"
    using switch_loop_acc [of "acc @ [?t]" rnd m 1 "k + 2" lastTask] by auto
  moreover have "\<not> isSwitch ?t" by simp
  ultimately show ?thesis by (intro bexI [of _ ?t]) simp_all
qed

lemma switch_loop_has_switch:
  "i \<le> 4 \<Longrightarrow> 4 < i + m \<Longrightarrow> \<exists>t \<in> set (switch_generate_loop rnd m i k lastTask acc). isSwitch t"
proof (induction m arbitrary: i k lastTask acc)
  case 0
  then show ?case by simp
next
  case (Suc m)
  show ?case
  proof (cases "i = 4")
    case False
    with Suc.prems have "i + 1 \<le> 4" "4 < (i + 1) + m" by simp_all
    from Suc.IH [OF this] show ?thesis
      unfolding switch_generate_loop.simps Let_def by blast
  next
    case True
    let ?task = "if lastTask = Number_task then Letter_task else Number_task"
    let ?t = "\<lparr>t_number = NUMBERS ! nat \<lfloor>draw_value (rnd k) * real (length NUMBERS)\<rfloor>,
             t_letter = (VOWELS @ CONSONANTS) ! nat \<lfloor>draw_value (rnd (k + 1)) * real (length (VOWELS @ CONSONANTS))\<rfloor>,
             task = ?task, isSwitch = True\<rparr>"
    have "switch_generate_loop rnd (Suc m) i k lastTask acc
          = switch_generate_loop rnd m 5 (k + 2) ?task (acc @ [?t])"
      using True by (simp add: Let_def)
    moreover have "?t \<in> set (switch_generate_loop rnd m 5 (k + 2) ?task (acc @ [?t]))"
      using switch_loop_acc [of "acc @ [?t]" rnd m 5 "k + 2" ?task] by auto
    moreover have "isSwitch ?t" by simp
    ultimately show ?thesis by (intro bexI [of _ ?t]) simp_all
  qed
qed

lemma length_switch_generateTrials: "length (switch_generateTrials rnd) = SWITCH_TOTAL_TRIALS"
  by (simp add: switch_generateTrials_def switch_loop_length)

lemma switch_generated_conditions:
  "(\<exists>t \<in> set (switch_generateTrials rnd). isSwitch t)
   \<and> (\<exists>t \<in> set (switch_generateTrials rnd). \<not> isSwitch t)"
proof -
  have "SWITCH_TOTAL_TRIALS = Suc 31" by (simp add: SWITCH_TOTAL_TRIALS_def)
  then show ?thesis
    unfolding switch_generateTrials_def
    using switch_loop_has_repeat [of rnd 31 1] switch_loop_has_switch [of 0 "Suc 31" rnd 1]
    by simp
qed

lemma switch_step_inv: "switch_inv s \<Longrightarrow> switch_inv (switch_step s e)"
proof (cases e)
  case (T_Response response now)
  assume inv: "switch_inv s"
  show ?thesis
  proof (cases "ts_phase s = Playing \<and> \<not> ts_showFixation s")
    case False
    with inv T_Response show ?thesis by (auto simp: switch_handleResponse_def)
  next
    case True
    with inv obtain rnd where tr: "ts_trials s = switch_generateTrials rnd"
      and cur: "ts_currentTrial s < SWITCH_TOTAL_TRIALS"
      and res: "map tr_trial (ts_results s) = take (ts_currentTrial s) (ts_trials s)"
      by (auto simp: switch_inv_def)
    have len: "ts_currentTrial s < length (ts_trials s)"
      using cur tr by (simp add: length_switch_generateTrials)
    show ?thesis
      using True T_Response tr cur res len
      by (auto simp: switch_handleResponse_def js_index_def switch_inv_def Let_def
          take_Suc_conv_app_nth)
  qed
next
  case T_FeedbackTimer
  assume inv: "switch_inv s"
  show ?thesis
  proof (cases "ts_phase s = Feedback")
    case False
    with inv T_FeedbackTimer show ?thesis by (simp add: switch_feedbackTimer_def)
  next
    case True
    with inv obtain rnd where tr: "ts_trials s = switch_generateTrials rnd"
      and cur: "ts_currentTrial s < SWITCH_TOTAL_TRIALS"
      and res: "map tr_trial (ts_results s) = take (Suc (ts_currentTrial s)) (ts_trials s)"
      by (auto simp: switch_inv_def)
    have len: "length (ts_trials s) = SWITCH_TOTAL_TRIALS"
      using tr by (simp add: length_switch_generateTrials)
    show ?thesis
      using True T_FeedbackTimer tr cur res len
      by (auto simp: switch_feedbackTimer_def switch_inv_def)
  qed
qed (auto simp: switch_inv_def switch_startGame_def switch_countdownEffect_def
      switch_fixationTimer_def SWITCH_TOTAL_TRIALS_def)

lemma switch_run_inv: "switch_inv s \<Longrightarrow> switch_inv (switch_run s es)"
  unfolding switch_run_def
  by (induction es arbitrary: s) (simp_all add: switch_step_inv)

lemma switch_inv_initial: "switch_inv switch_initial"
  by (simp add: switch_inv_def switch_initial_def)

lemma switch_results_conditions:
  assumes "ts_phase (switch_run switch_initial es) = Results"
  shows "filter (\<lambda>r. isSwitch (tr_trial r)) (ts_results (switch_run switch_initial es)) \<noteq> []"
    and "filter (\<lambda>r. \<not> isSwitch (tr_trial r)) (ts_results (switch_run switch_initial es)) \<noteq> []"
proof -
  let ?final = "switch_run switch_initial es"
  have inv: "switch_inv ?final" using switch_inv_initial by (rule switch_run_inv)
  with assms obtain rnd where "map tr_trial (ts_results ?final) = switch_generateTrials rnd"
    by (auto simp: switch_inv_def)
  then have eq: "set (switch_generateTrials rnd) = tr_trial ` set (ts_results ?final)"
    by (metis set_map)
  from switch_generated_conditions [of rnd]
  have sw: "\<exists>r \<in> set (ts_results ?final). isSwitch (tr_trial r)"
    and rp: "\<exists>r \<in> set (ts_results ?final). \<not> isSwitch (tr_trial r)"
    unfolding eq by blast+
  from sw show "filter (\<lambda>r. isSwitch (tr_trial r)) (ts_results ?final) \<noteq> []"
    by (simp add: filter_empty_conv)
  from rp show "filter (\<lambda>r. \<not> isSwitch (tr_trial r)) (ts_results ?final) \<noteq> []"
    by (simp add: filter_empty_conv)
qed

text \<open>A whole session ends in the results phase.\<close>

lemma flanker_rounds:
  assumes "f_phase s = Playing" and "f_showFixation s"
    and "f_currentTrial s + j = FLANKER_TOTAL_TRIALS" and "0 < j"
    and "length (f_trials s) = FLANKER_TOTAL_TRIALS"
  shows "f_phase (flanker_run s (concat (replicate j
           [F_FixationTimer 1000, F_Response Left 1500, F_FeedbackTimer]))) = Results"
  using assms
proof (induction j arbitrary: s)
  case 0
  then show ?case by simp
next
  case (Suc j)
  let ?s' = "flanker_run s [F_FixationTimer 1000, F_Response Left 1500, F_FeedbackTimer]"
  have cur: "f_currentTrial s < length (f_trials s)" using Suc.prems by simp
  have run: "flanker_run s (concat (replicate (Suc j)
           [F_FixationTimer 1000, F_Response Left 1500, F_FeedbackTimer]))
        = flanker_run ?s' (concat (replicate j
           [F_FixationTimer 1000, F_Response Left 1500, F_FeedbackTimer]))"
    by (simp add: flanker_run_def)
  show ?case
  proof (cases "j = 0")
    case True
    then have "f_phase ?s' = Results"
      using Suc.prems cur
      by (simp add: flanker_run_def flanker_fixationTimer_def flanker_handleResponse_def
          flanker_feedbackTimer_def js_index_def Let_def)
    with True show ?thesis by (simp add: flanker_run_def)
  next
    case False
    then have "f_phase ?s' = Playing \<and> f_showFixation ?s'
        \<and> f_currentTrial ?s' = Suc (f_currentTrial s) \<and> f_trials ?s' = f_trials s"
      using Suc.prems cur
      by (simp add: flanker_run_def flanker_fixationTimer_def flanker_handleResponse_def
          flanker_feedbackTimer_def js_index_def Let_def)
    then show ?thesis
      unfolding run using Suc.prems False by (intro Suc.IH) simp_all
  qed
qed

lemma flanker_session_results:
  "f_phase (flanker_run flanker_initial (flanker_session rnd)) = Results"
proof -
  let ?s = "flanker_run flanker_initial (F_StartGame rnd # replicate 4 F_CountdownEffect)"
  have s: "f_phase ?s = Playing" "f_showFixation ?s" "f_currentTrial ?s = 0"
    "f_trials ?s = flanker_generateTrials rnd"
    by (simp_all add: flanker_run_def flanker_initial_def flanker_startGame_def
        flanker_countdownEffect_def eval_nat_numeral)
  have "f_phase (flanker_run ?s (concat (replicate FLANKER_TOTAL_TRIALS
           [F_FixationTimer 1000, F_Response Left 1500, F_FeedbackTimer]))) = Results"
    using s by (intro flanker_rounds) (simp_all add: length_flanker_generateTrials FLANKER_TOTAL_TRIALS_def)
  then show ?thesis
    unfolding flanker_session_def flanker_run_def by (simp only: foldl_append foldl_Cons append_Cons)
qed

lemma switch_rounds:
  assumes "ts_phase s = Playing" and "ts_showFixation s"
    and "ts_currentTrial s + j = SWITCH_TOTAL_TRIALS" and "0 < j"
    and "length (ts_trials s) = SWITCH_TOTAL_TRIALS"
  shows "ts_phase (switch_run s (concat (replicate j
           [T_FixationTimer 1000, T_Response ''even'' 1500, T_FeedbackTimer]))) = Results"
  using assms
proof (induction j arbitrary: s)
  case 0
  then show ?case by simp
next
  case (Suc j)
  let ?s' = "switch_run s [T_FixationTimer 1000, T_Response ''even'' 1500, T_FeedbackTimer]"
  have cur: "ts_currentTrial s < length (ts_trials s)" using Suc.prems by simp
  have run: "switch_run s (concat (replicate (Suc j)
           [T_FixationTimer 1000, T_Response ''even'' 1500, T_FeedbackTimer]))
        = switch_run ?s' (concat (replicate j
           [T_FixationTimer 1000, T_Response ''even'' 1500, T_FeedbackTimer]))"
    by (simp add: switch_run_def)
  show ?case
  proof (cases "j = 0")
    case True
    then have "ts_phase ?s' = Results"
      using Suc.prems cur
      by (simp add: switch_run_def switch_fixationTimer_def switch_handleResponse_def
          switch_feedbackTimer_def js_index_def Let_def)
    with True show ?thesis by (simp add: switch_run_def)
  next
    case False
    then have "ts_phase ?s' = Playing \<and> ts_showFixation ?s'
        \<and> ts_currentTrial ?s' = Suc (ts_currentTrial s) \<and> ts_trials ?s' = ts_trials s"
      using Suc.prems cur
      by (simp add: switch_run_def switch_fixationTimer_def switch_handleResponse_def
          switch_feedbackTimer_def js_index_def Let_def)
    then show ?thesis
      unfolding run using Suc.prems False by (intro Suc.IH) simp_all
  qed
qed

lemma switch_session_results:
  "ts_phase (switch_run switch_initial (switch_session rnd)) = Results"
proof -
  let ?s = "switch_run switch_initial (T_StartGame rnd # replicate 4 T_CountdownEffect)"
  have s: "ts_phase ?s = Playing" "ts_showFixation ?s" "ts_currentTrial ?s = 0"
    "ts_trials ?s = switch_generateTrials rnd"
    by (simp_all add: switch_run_def switch_initial_def switch_startGame_def
        switch_countdownEffect_def eval_nat_numeral)
  have "ts_phase (switch_run ?s (concat (replicate SWITCH_TOTAL_TRIALS
           [T_FixationTimer 1000, T_Response ''even'' 1500, T_FeedbackTimer]))) = Results"
    using s by (intro switch_rounds) (simp_all add: length_switch_generateTrials SWITCH_TOTAL_TRIALS_def)
  then show ?thesis
    unfolding switch_session_def switch_run_def by (simp only: foldl_append foldl_Cons append_Cons)
qed

lemma mean_rt_defined: "rts \<noteq> [] \<Longrightarrow> \<exists>a. mean_rt rts = Some a"
  by (simp add: mean_rt_def)

lemma switch_cost_is_difference:
  "mean_rt (map tr_responseTime (filter (\<lambda>r. isSwitch (tr_trial r)) rs)) = Some a
      \<and> mean_rt (map tr_responseTime (filter (\<lambda>r. \<not> isSwitch (tr_trial r)) rs)) = Some b
      \<longrightarrow> switchCost (switch_calculateStats rs) = a - b"
  by (auto simp: mean_rt_def switch_calculateStats_def Let_def split: if_splits)

lemma flanker_effect_is_difference:
  "mean_rt (map fr_responseTime (filter (\<lambda>r. f_type (fr_trial r) = Incongruent) fs)) = Some c
      \<and> mean_rt (map fr_responseTime (filter (\<lambda>r. f_type (fr_trial r) = Congruent) fs)) = Some d
      \<longrightarrow> flankerEffect (flanker_calculateStats fs) = c - d"
  by (auto simp: mean_rt_def flanker_calculateStats_def Let_def split: if_splits)

lemma switch_session_cost:
  assumes "ts_phase (switch_run switch_initial es) = Results"
  shows "\<exists>a b. mean_rt (map tr_responseTime (filter (\<lambda>r. isSwitch (tr_trial r))
                    (ts_results (switch_run switch_initial es)))) = Some a
           \<and> mean_rt (map tr_responseTime (filter (\<lambda>r. \<not> isSwitch (tr_trial r))
                    (ts_results (switch_run switch_initial es)))) = Some b
           \<and> switchCost (switch_calculateStats (ts_results (switch_run switch_initial es))) = a - b"
proof -
  let ?rs = "ts_results (switch_run switch_initial es)"
  from switch_results_conditions [OF assms]
  obtain a b where a: "mean_rt (map tr_responseTime (filter (\<lambda>r. isSwitch (tr_trial r)) ?rs)) = Some a"
    and b: "mean_rt (map tr_responseTime (filter (\<lambda>r. \<not> isSwitch (tr_trial r)) ?rs)) = Some b"
    using mean_rt_defined [of "map tr_responseTime (filter (\<lambda>r. isSwitch (tr_trial r)) ?rs)"]
      mean_rt_defined [of "map tr_responseTime (filter (\<lambda>r. \<not> isSwitch (tr_trial r)) ?rs)"]
    by auto
  with switch_cost_is_difference [of ?rs a b] show ?thesis by blast
qed

lemma flanker_session_effect:
  assumes "f_phase (flanker_run flanker_initial es) = Results"
  shows "\<exists>c d. mean_rt (map fr_responseTime (filter (\<lambda>r. f_type (fr_trial r) = Incongruent)
                    (f_results (flanker_run flanker_initial es)))) = Some c
           \<and> mean_rt (map fr_responseTime (filter (\<lambda>r. f_type (fr_trial r) = Congruent)
                    (f_results (flanker_run flanker_initial es)))) = Some d
           \<and> flankerEffect (flanker_calculateStats (f_results (flanker_run flanker_initial es))) = c - d"
proof -
  let ?fs = "f_results (flanker_run flanker_initial es)"
  from flanker_results_conditions [OF assms]
  obtain c d where c: "mean_rt (map fr_responseTime (filter (\<lambda>r. f_type (fr_trial r) = Incongruent) ?fs)) = Some c"
    and d: "mean_rt (map fr_responseTime (filter (\<lambda>r. f_type (fr_trial r) = Congruent) ?fs)) = Some d"
    using mean_rt_defined [of "map fr_responseTime (filter (\<lambda>r. f_type (fr_trial r) = Incongruent) ?fs)"]
      mean_rt_defined [of "map fr_responseTime (filter (\<lambda>r. f_type (fr_trial r) = Congruent) ?fs)"]
    by auto
  with flanker_effect_is_difference [of ?fs c d] show ?thesis by blast
qed

text \<open>
  C4.  When the recorded results hold at least one switch and one repeat trial, the
  switch cost is the mean response time of the switch trials minus that of the repeat
  trials; when they hold at least one incongruent and one congruent trial, the flanker
  effect is the mean response time of the incongruent trials minus that of the
  congruent ones.  The results a session has recorded when it reaches the results
  phase, where the scorer runs, always hold trials of both conditions, so there both
  means exist and the index is their difference.  Each difference takes negative, zero
  and positive values.
\<close>

theorem switch_cost_and_flanker_effect:
  "(mean_rt (map tr_responseTime (filter (\<lambda>r. isSwitch (tr_trial r)) rs)) = Some a
      \<and> mean_rt (map tr_responseTime (filter (\<lambda>r. \<not> isSwitch (tr_trial r)) rs)) = Some b
      \<longrightarrow> switchCost (switch_calculateStats rs) = a - b)
   \<and> (mean_rt (map fr_responseTime (filter (\<lambda>r. f_type (fr_trial r) = Incongruent) fs)) = Some c
      \<and> mean_rt (map fr_responseTime (filter (\<lambda>r. f_type (fr_trial r) = Congruent) fs)) = Some d
      \<longrightarrow> flankerEffect (flanker_calculateStats fs) = c - d)
   \<and> (ts_phase (switch_run switch_initial es) = Results \<longrightarrow>
        (\<exists>a b. mean_rt (map tr_responseTime (filter (\<lambda>r. isSwitch (tr_trial r))
                    (ts_results (switch_run switch_initial es)))) = Some a
           \<and> mean_rt (map tr_responseTime (filter (\<lambda>r. \<not> isSwitch (tr_trial r))
                    (ts_results (switch_run switch_initial es)))) = Some b
           \<and> switchCost (switch_calculateStats (ts_results (switch_run switch_initial es)))
               = a - b))
   \<and> (f_phase (flanker_run flanker_initial es') = Results \<longrightarrow>
        (\<exists>c d. mean_rt (map fr_responseTime (filter (\<lambda>r. f_type (fr_trial r) = Incongruent)
                    (f_results (flanker_run flanker_initial es')))) = Some c
           \<and> mean_rt (map fr_responseTime (filter (\<lambda>r. f_type (fr_trial r) = Congruent)
                    (f_results (flanker_run flanker_initial es')))) = Some d
           \<and> flankerEffect (flanker_calculateStats (f_results (flanker_run flanker_initial es')))
               = c - d))
   \<and> (\<exists>rs. filter (\<lambda>r. isSwitch (tr_trial r)) rs \<noteq> []
         \<and> filter (\<lambda>r. \<not> isSwitch (tr_trial r)) rs \<noteq> []
         \<and> switchCost (switch_calculateStats rs) < 0)
   \<and> (\<exists>rs. filter (\<lambda>r. isSwitch (tr_trial r)) rs \<noteq> []
         \<and> filter (\<lambda>r. \<not> isSwitch (tr_trial r)) rs \<noteq> []
         \<and> switchCost (switch_calculateStats rs) = 0)
   \<and> (\<exists>rs. filter (\<lambda>r. isSwitch (tr_trial r)) rs \<noteq> []
         \<and> filter (\<lambda>r. \<not> isSwitch (tr_trial r)) rs \<noteq> []
         \<and> switchCost (switch_calculateStats rs) > 0)
   \<and> (\<exists>fs. filter (\<lambda>r. f_type (fr_trial r) = Incongruent) fs \<noteq> []
         \<and> filter (\<lambda>r. f_type (fr_trial r) = Congruent) fs \<noteq> []
         \<and> flankerEffect (flanker_calculateStats fs) < 0)
   \<and> (\<exists>fs. filter (\<lambda>r. f_type (fr_trial r) = Incongruent) fs \<noteq> []
         \<and> filter (\<lambda>r. f_type (fr_trial r) = Congruent) fs \<noteq> []
         \<and> flankerEffect (flanker_calculateStats fs) = 0)
   \<and> (\<exists>fs. filter (\<lambda>r. f_type (fr_trial r) = Incongruent) fs \<noteq> []
         \<and> filter (\<lambda>r. f_type (fr_trial r) = Congruent) fs \<noteq> []
         \<and> flankerEffect (flanker_calculateStats fs) > 0)"
proof -
  note sw = switch_cost_is_difference [of rs a b]
  note fl = flanker_effect_is_difference [of fs c d]
  have ss: "ts_phase (switch_run switch_initial es) = Results \<longrightarrow>
        (\<exists>a b. mean_rt (map tr_responseTime (filter (\<lambda>r. isSwitch (tr_trial r))
                    (ts_results (switch_run switch_initial es)))) = Some a
           \<and> mean_rt (map tr_responseTime (filter (\<lambda>r. \<not> isSwitch (tr_trial r))
                    (ts_results (switch_run switch_initial es)))) = Some b
           \<and> switchCost (switch_calculateStats (ts_results (switch_run switch_initial es)))
               = a - b)"
    using switch_session_cost [of es] by blast
  have fs: "f_phase (flanker_run flanker_initial es') = Results \<longrightarrow>
        (\<exists>c d. mean_rt (map fr_responseTime (filter (\<lambda>r. f_type (fr_trial r) = Incongruent)
                    (f_results (flanker_run flanker_initial es')))) = Some c
           \<and> mean_rt (map fr_responseTime (filter (\<lambda>r. f_type (fr_trial r) = Congruent)
                    (f_results (flanker_run flanker_initial es')))) = Some d
           \<and> flankerEffect (flanker_calculateStats (f_results (flanker_run flanker_initial es')))
               = c - d)"
    using flanker_session_effect [of es'] by blast
  have s1: "\<exists>rs. filter (\<lambda>r. isSwitch (tr_trial r)) rs \<noteq> []
         \<and> filter (\<lambda>r. \<not> isSwitch (tr_trial r)) rs \<noteq> []
         \<and> switchCost (switch_calculateStats rs) < 0"
    by (rule exI [of _ "[sample_switch_result True 400, sample_switch_result False 500]"])
      (simp add: switch_cost_signs, simp add: sample_switch_result_def)
  have s2: "\<exists>rs. filter (\<lambda>r. isSwitch (tr_trial r)) rs \<noteq> []
         \<and> filter (\<lambda>r. \<not> isSwitch (tr_trial r)) rs \<noteq> []
         \<and> switchCost (switch_calculateStats rs) = 0"
    by (rule exI [of _ "[sample_switch_result True 500, sample_switch_result False 500]"])
      (simp add: switch_cost_signs, simp add: sample_switch_result_def)
  have s3: "\<exists>rs. filter (\<lambda>r. isSwitch (tr_trial r)) rs \<noteq> []
         \<and> filter (\<lambda>r. \<not> isSwitch (tr_trial r)) rs \<noteq> []
         \<and> switchCost (switch_calculateStats rs) > 0"
    by (rule exI [of _ "[sample_switch_result True 700, sample_switch_result False 500]"])
      (simp add: switch_cost_signs, simp add: sample_switch_result_def)
  have f1: "\<exists>fs. filter (\<lambda>r. f_type (fr_trial r) = Incongruent) fs \<noteq> []
         \<and> filter (\<lambda>r. f_type (fr_trial r) = Congruent) fs \<noteq> []
         \<and> flankerEffect (flanker_calculateStats fs) < 0"
    by (rule exI [of _ "[sample_flanker_result Incongruent 400, sample_flanker_result Congruent 500]"])
      (simp add: flanker_effect_signs, simp add: sample_flanker_result_def)
  have f2: "\<exists>fs. filter (\<lambda>r. f_type (fr_trial r) = Incongruent) fs \<noteq> []
         \<and> filter (\<lambda>r. f_type (fr_trial r) = Congruent) fs \<noteq> []
         \<and> flankerEffect (flanker_calculateStats fs) = 0"
    by (rule exI [of _ "[sample_flanker_result Incongruent 500, sample_flanker_result Congruent 500]"])
      (simp add: flanker_effect_signs, simp add: sample_flanker_result_def)
  have f3: "\<exists>fs. filter (\<lambda>r. f_type (fr_trial r) = Incongruent) fs \<noteq> []
         \<and> filter (\<lambda>r. f_type (fr_trial r) = Congruent) fs \<noteq> []
         \<and> flankerEffect (flanker_calculateStats fs) > 0"
    by (rule exI [of _ "[sample_flanker_result Incongruent 700, sample_flanker_result Congruent 500]"])
      (simp add: flanker_effect_signs, simp add: sample_flanker_result_def)
  from sw fl ss fs s1 s2 s3 f1 f2 f3 show ?thesis by blast
qed

theorem switch_cost_and_flanker_effect_witness:
  "mean_rt (map tr_responseTime (filter (\<lambda>r. isSwitch (tr_trial r))
      [sample_switch_result True 600, sample_switch_result False 500,
       sample_switch_result True 800])) = Some 700
   \<and> mean_rt (map tr_responseTime (filter (\<lambda>r. \<not> isSwitch (tr_trial r))
      [sample_switch_result True 600, sample_switch_result False 500,
       sample_switch_result True 800])) = Some 500
   \<and> switchCost (switch_calculateStats
      [sample_switch_result True 600, sample_switch_result False 500,
       sample_switch_result True 800]) = 200
   \<and> mean_rt (map fr_responseTime (filter (\<lambda>r. f_type (fr_trial r) = Incongruent)
      [sample_flanker_result Incongruent 450, sample_flanker_result Neutral 900,
       sample_flanker_result Congruent 500])) = Some 450
   \<and> mean_rt (map fr_responseTime (filter (\<lambda>r. f_type (fr_trial r) = Congruent)
      [sample_flanker_result Incongruent 450, sample_flanker_result Neutral 900,
       sample_flanker_result Congruent 500])) = Some 500
   \<and> flankerEffect (flanker_calculateStats
      [sample_flanker_result Incongruent 450, sample_flanker_result Neutral 900,
       sample_flanker_result Congruent 500]) = - 50
   \<and> ts_phase (switch_run switch_initial (switch_session sample_draws)) = Results
   \<and> (\<exists>a b. mean_rt (map tr_responseTime (filter (\<lambda>r. isSwitch (tr_trial r))
              (ts_results (switch_run switch_initial (switch_session sample_draws))))) = Some a
         \<and> mean_rt (map tr_responseTime (filter (\<lambda>r. \<not> isSwitch (tr_trial r))
              (ts_results (switch_run switch_initial (switch_session sample_draws))))) = Some b
         \<and> switchCost (switch_calculateStats
              (ts_results (switch_run switch_initial (switch_session sample_draws)))) = a - b)
   \<and> f_phase (flanker_run flanker_initial (flanker_session sample_draws)) = Results
   \<and> (\<exists>c d. mean_rt (map fr_responseTime (filter (\<lambda>r. f_type (fr_trial r) = Incongruent)
              (f_results (flanker_run flanker_initial (flanker_session sample_draws))))) = Some c
         \<and> mean_rt (map fr_responseTime (filter (\<lambda>r. f_type (fr_trial r) = Congruent)
              (f_results (flanker_run flanker_initial (flanker_session sample_draws))))) = Some d
         \<and> flankerEffect (flanker_calculateStats
              (f_results (flanker_run flanker_initial (flanker_session sample_draws)))) = c - d)"
  using switch_cost_and_flanker_effect
    [of "[sample_switch_result True 600, sample_switch_result False 500,
          sample_switch_result True 800]" 700 500
        "[sample_flanker_result Incongruent 450, sample_flanker_result Neutral 900,
          sample_flanker_result Congruent 500]" 450 500
        "switch_session sample_draws" "flanker_session sample_draws"]
    switch_session_results [of sample_draws] flanker_session_results [of sample_draws]
  by (simp add: mean_rt_def sample_switch_result_def sample_flanker_result_def)

end
